theory Spec2Isabelle
  imports Complex_Main "HOL-Library.List_Lexorder"
begin

section \<open>Invoice monitoring: cleaning, scoring and aggregation of \<open>app.py\<close>\<close>

text \<open>
  The program reads an invoice export into a table, cleans it (\<open>clean_data\<close>), converts
  every amount to roubles, scores every row (\<open>calculate_risk_score\<close>) and derives key
  figures and a per-country breakdown. The table is a list of rows in their original
  order; a column is the list of one field over the rows.

  Numbers are exact rationals: the rounding of binary floating point is not part of
  this model. A missing number (\<open>NaN\<close>) is \<open>None\<close>.
\<close>

subsection \<open>Text\<close>

text \<open>
  A Python string is a sequence of Unicode code points, so text is a list of code
  points here. \<open>asc\<close> writes an ASCII literal.
\<close>

type_synonym ustring = "nat list"

definition asc :: "string \<Rightarrow> ustring" where
  "asc s = map of_char s"

text \<open>
  \<open>str.replace(old, new)\<close>: every occurrence of \<open>old\<close>, found from the left and not
  overlapping, becomes \<open>new\<close>. The program only calls it with a pattern that is not empty;
  the empty pattern (Python puts \<open>new\<close> around every character) is written out for
  completeness.
\<close>

fun replace_from :: "'a \<Rightarrow> 'a list \<Rightarrow> 'a list \<Rightarrow> 'a list \<Rightarrow> 'a list" where
  "replace_from p ps new [] = []"
| "replace_from p ps new (c # cs) =
     (if c = p \<and> take (length ps) cs = ps
      then new @ replace_from p ps new (drop (length ps) cs)
      else c # replace_from p ps new cs)"

definition str_replace :: "'a list \<Rightarrow> 'a list \<Rightarrow> 'a list \<Rightarrow> 'a list" where
  "str_replace old new s =
     (case old of
        [] \<Rightarrow> new @ concat (map (\<lambda>c. c # new) s)
      | p # ps \<Rightarrow> replace_from p ps new s)"

text \<open>
  \<open>str.lower()\<close> on one code point, for the letters the export uses: Latin \<open>A-Z\<close> and the
  Russian capitals (U+0410 to U+042F, and U+0400 to U+040F). Every other code point is
  left as it is.
\<close>

definition lower_cp :: "nat \<Rightarrow> nat" where
  "lower_cp c =
     (if 65 \<le> c \<and> c \<le> 90 then c + 32
      else if 1040 \<le> c \<and> c \<le> 1071 then c + 32
      else if 1024 \<le> c \<and> c \<le> 1039 then c + 80
      else c)"

definition str_lower :: "ustring \<Rightarrow> ustring" where
  "str_lower s = map lower_cp s"

text \<open>
  The replacement of \<open>'usd'\<close> is asked for with \<open>case=False, regex=False\<close>: pandas escapes
  the pattern and substitutes it as a regular expression that ignores case. A text
  character matches a pattern letter when its lower case is that letter; the regular
  expression engine also lets the long s (U+017F) match \<open>s\<close>.
\<close>

definition matches_ci :: "nat \<Rightarrow> nat \<Rightarrow> bool" where
  "matches_ci p c = (lower_cp c = p \<or> (p = 115 \<and> c = 383))"

fun replace_from_ci :: "nat \<Rightarrow> nat list \<Rightarrow> ustring \<Rightarrow> ustring \<Rightarrow> ustring" where
  "replace_from_ci p ps new [] = []"
| "replace_from_ci p ps new (c # cs) =
     (if matches_ci p c \<and> length ps \<le> length cs
         \<and> list_all2 matches_ci ps (take (length ps) cs)
      then new @ replace_from_ci p ps new (drop (length ps) cs)
      else c # replace_from_ci p ps new cs)"

definition str_replace_ci :: "ustring \<Rightarrow> ustring \<Rightarrow> ustring \<Rightarrow> ustring" where
  "str_replace_ci old new s =
     (case old of
        [] \<Rightarrow> new @ concat (map (\<lambda>c. c # new) s)
      | p # ps \<Rightarrow> replace_from_ci p ps new s)"

text \<open>\<open>str.strip()\<close> removes the white space of Unicode at both ends.\<close>

definition is_space :: "nat \<Rightarrow> bool" where
  "is_space c =
     ((9 \<le> c \<and> c \<le> 13) \<or> (28 \<le> c \<and> c \<le> 32) \<or> c = 133 \<or> c = 160 \<or> c = 5760
      \<or> (8192 \<le> c \<and> c \<le> 8202) \<or> c = 8232 \<or> c = 8233 \<or> c = 8239 \<or> c = 8287
      \<or> c = 12288)"

definition str_strip :: "ustring \<Rightarrow> ustring" where
  "str_strip s = rev (dropWhile is_space (rev (dropWhile is_space s)))"

subsection \<open>Numbers\<close>

text \<open>
  \<open>pd.to_numeric(..., errors='coerce')\<close> on one string, for plain decimal literals: an
  optional sign, digits, and an optional decimal point with digits. Anything else is
  \<open>NaN\<close>. (pandas also reads exponents and \<open>inf\<close>; those are outside this model.)
\<close>

definition is_digit :: "nat \<Rightarrow> bool" where
  "is_digit c = (48 \<le> c \<and> c \<le> 57)"

definition digits_value :: "ustring \<Rightarrow> nat" where
  "digits_value ds = foldl (\<lambda>n c. 10 * n + (c - 48)) 0 ds"

definition parse_unsigned :: "ustring \<Rightarrow> rat option" where
  "parse_unsigned s =
     (let ip = takeWhile is_digit s; rest = dropWhile is_digit s in
      case rest of
        [] \<Rightarrow> if ip = [] then None else Some (of_nat (digits_value ip))
      | c # fp \<Rightarrow>
          if c = 46 \<and> list_all is_digit fp \<and> (ip \<noteq> [] \<or> fp \<noteq> [])
          then Some (of_nat (digits_value ip) + of_nat (digits_value fp) / 10 ^ length fp)
          else None)"

definition to_numeric :: "ustring \<Rightarrow> rat option" where
  "to_numeric s =
     (case s of
        [] \<Rightarrow> None
      | c # cs \<Rightarrow>
          if c = 45 then map_option uminus (parse_unsigned cs)
          else if c = 43 then parse_unsigned cs
          else parse_unsigned s)"

text \<open>Arithmetic and comparison with \<open>NaN\<close>: a product with \<open>NaN\<close> is \<open>NaN\<close>, and every
  comparison with \<open>NaN\<close> is false.\<close>

definition nan_mult :: "rat option \<Rightarrow> rat option \<Rightarrow> rat option" where
  "nan_mult a b = (case a of None \<Rightarrow> None | Some x \<Rightarrow> map_option (\<lambda>y. x * y) b)"

definition nan_gt :: "rat option \<Rightarrow> rat option \<Rightarrow> bool" where
  "nan_gt a b = (case a of None \<Rightarrow> False | Some x \<Rightarrow> (case b of None \<Rightarrow> False | Some y \<Rightarrow> x > y))"

text \<open>\<open>Series.sum()\<close> and \<open>Series.median()\<close> skip \<open>NaN\<close>; the sum of nothing is 0, the
  median of nothing is \<open>NaN\<close>. The median of an even number of values is the mean of
  the two in the middle.\<close>

definition dropna :: "'a option list \<Rightarrow> 'a list" where
  "dropna col = map the (filter (\<lambda>v. v \<noteq> None) col)"

definition series_sum :: "rat option list \<Rightarrow> rat" where
  "series_sum col = sum_list (dropna col)"

definition median_of :: "rat list \<Rightarrow> rat option" where
  "median_of xs =
     (let s = sort xs; n = length s in
      if n = 0 then None
      else if odd n then Some (s ! (n div 2))
      else Some ((s ! (n div 2 - 1) + s ! (n div 2)) / 2))"

definition series_median :: "rat option list \<Rightarrow> rat option" where
  "series_median col = median_of (dropna col)"

subsection \<open>The table\<close>

text \<open>
  A cell of a date column is missing (\<open>NaT\<close>), text that is still to be parsed, or a
  time stamp. Time stamps count seconds; they carry no time zone. A cell of an amount
  column is missing (\<open>NaN\<close>), text, or a number. A cell of a text column is missing
  (\<open>None\<close>) or a string.
\<close>

datatype datecell = NaT | DateText ustring | Timestamp int

datatype numcell = NaN | NumText ustring | Number rat

text \<open>
  One row of the data frame, under the canonical column names that \<open>clean_data\<close> gives
  the sixteen columns of the export. \<open>amount\<close> is a column that the renaming does not
  produce: the program looks for it, and a flag of the table says whether it is there.
  \<open>amount_rub\<close> and \<open>risk_score\<close> are the two derived columns; the program assigns them
  whatever they held before.

  Every row has all columns: an export without one of the columns the program reads
  by name makes it stop with a \<open>KeyError\<close>, and such a table is not described here;
  nor is what the row-wise \<open>apply\<close> does on a table without rows. The cross rate is a
  numeric column, as pandas reads it from numbers.
\<close>

record invoice =
  contractor :: "ustring option"
  vessel :: "ustring option"
  country :: "ustring option"
  incoterms :: "ustring option"
  bank :: "ustring option"
  sales_channel :: "ustring option"
  invoice_id :: "ustring option"
  invoice_date :: datecell
  invoice_amount :: numcell
  invoice_currency :: "ustring option"
  status :: "ustring option"
  payment_date :: datecell
  payment_amount :: numcell
  cross_rate :: "rat option"
  manager :: "ustring option"
  comment :: "ustring option"
  amount :: "rat option"
  amount_rub :: "rat option"
  risk_score :: int

subsection \<open>\<open>clean_data\<close>\<close>

text \<open>
  Step 2, \<open>drop_duplicates(subset=['invoice_id'], keep='first')\<close>: a row is dropped when
  its key was seen in an earlier row. pandas compares keys by value and takes two
  missing keys to be equal.
\<close>

fun drop_seen :: "ustring option list \<Rightarrow> invoice list \<Rightarrow> invoice list" where
  "drop_seen seen [] = []"
| "drop_seen seen (r # rs) =
     (if invoice_id r \<in> set seen then drop_seen seen rs
      else r # drop_seen (invoice_id r # seen) rs)"

definition drop_duplicates :: "invoice list \<Rightarrow> invoice list" where
  "drop_duplicates df = drop_seen [] df"

text \<open>
  Step 3, \<open>pd.to_datetime(..., errors='coerce', dayfirst=True)\<close>: the parser of date text
  belongs to pandas and is a parameter \<open>parse_date\<close>; text it does not read becomes
  \<open>NaT\<close>. A cell that already is a time stamp stays.
\<close>

definition to_datetime :: "(ustring \<Rightarrow> int option) \<Rightarrow> datecell \<Rightarrow> datecell" where
  "to_datetime parse_date c =
     (case c of
        NaT \<Rightarrow> NaT
      | DateText s \<Rightarrow> (case parse_date s of None \<Rightarrow> NaT | Some t \<Rightarrow> Timestamp t)
      | Timestamp t \<Rightarrow> Timestamp t)"

text \<open>
  Step 4, the chain of replacements on an amount, in the order of the source: the sign
  U+2248, \<open>usd\<close> in any case, comma to point, the space, the rouble sign U+20BD, the
  dollar sign.
\<close>

definition strip_amount :: "ustring \<Rightarrow> ustring" where
  "strip_amount s =
     str_replace [36] []
       (str_replace [8381] []
         (str_replace [32] []
           (str_replace [44] [46]
             (str_replace_ci (asc ''usd'') []
               (str_replace [8776] [] s)))))"

text \<open>
  Every cell of an amount column goes through \<open>astype(str)\<close>, the replacements and
  \<open>to_numeric\<close>, also a cell that already is a number. \<open>astype(str)\<close> leaves text as it
  is and turns a missing cell into the text \<open>nan\<close>. How it prints a number belongs to
  pandas and is a parameter \<open>number_text\<close>; nothing is assumed about it, in particular
  not that the printed number is read back as the same number.
\<close>

definition amount_text :: "(rat \<Rightarrow> ustring) \<Rightarrow> numcell \<Rightarrow> ustring" where
  "amount_text number_text c =
     (case c of NaN \<Rightarrow> asc ''nan'' | NumText s \<Rightarrow> s | Number x \<Rightarrow> number_text x)"

definition clean_amount :: "(rat \<Rightarrow> ustring) \<Rightarrow> numcell \<Rightarrow> numcell" where
  "clean_amount number_text c =
     (case to_numeric (strip_amount (amount_text number_text c)) of
        None \<Rightarrow> NaN
      | Some x \<Rightarrow> Number x)"

text \<open>Step 5, \<open>fillna\<close> with the median of the column.\<close>

definition fillna :: "'a option \<Rightarrow> 'a option \<Rightarrow> 'a option" where
  "fillna v c = (case c of None \<Rightarrow> v | Some x \<Rightarrow> Some x)"

text \<open>Step 6, \<open>astype(str).str.strip().str.lower()\<close>.\<close>

definition astype_str :: "ustring option \<Rightarrow> ustring" where
  "astype_str c = (case c of None \<Rightarrow> asc ''nan'' | Some s \<Rightarrow> s)"

definition normalize_text :: "ustring option \<Rightarrow> ustring option" where
  "normalize_text c = Some (str_lower (str_strip (astype_str c)))"

definition clean_dates :: "(ustring \<Rightarrow> int option) \<Rightarrow> invoice \<Rightarrow> invoice" where
  "clean_dates parse_date r =
     r\<lparr>invoice_date := to_datetime parse_date (invoice_date r),
       payment_date := to_datetime parse_date (payment_date r)\<rparr>"

definition clean_amounts :: "(rat \<Rightarrow> ustring) \<Rightarrow> invoice \<Rightarrow> invoice" where
  "clean_amounts number_text r =
     r\<lparr>invoice_amount := clean_amount number_text (invoice_amount r),
       payment_amount := clean_amount number_text (payment_amount r)\<rparr>"

definition fill_cross_rate :: "invoice list \<Rightarrow> invoice list" where
  "fill_cross_rate df =
     (let median_rate = series_median (map cross_rate df)
      in map (\<lambda>r. r\<lparr>cross_rate := fillna median_rate (cross_rate r)\<rparr>) df)"

definition clean_strings :: "invoice \<Rightarrow> invoice" where
  "clean_strings r =
     r\<lparr>status := normalize_text (status r),
       contractor := normalize_text (contractor r),
       country := normalize_text (country r),
       manager := normalize_text (manager r)\<rparr>"

text \<open>The log that \<open>clean_data\<close> also returns only counts what happened to the table;
  it is left out.\<close>

definition clean_data ::
  "(ustring \<Rightarrow> int option) \<Rightarrow> (rat \<Rightarrow> ustring) \<Rightarrow> invoice list \<Rightarrow> invoice list" where
  "clean_data parse_date number_text df =
     map clean_strings
       (fill_cross_rate
         (map (clean_amounts number_text)
           (map (clean_dates parse_date)
             (drop_duplicates df))))"

subsection \<open>Conversion to roubles and the risk score\<close>

text \<open>The value of a cleaned amount cell. \<open>clean_amount\<close> returns a number or a missing
  cell (lemma \<open>clean_amount_no_text\<close>), so after \<open>clean_data\<close> the last case is never
  reached by the pipeline.\<close>

definition number_of :: "numcell \<Rightarrow> rat option" where
  "number_of c = (case c of Number x \<Rightarrow> Some x | NaN \<Rightarrow> None | NumText s \<Rightarrow> None)"

definition RUB :: ustring where
  "RUB = asc ''RUB''"

text \<open>The \<open>lambda\<close> of lines 205, 150 and 262.\<close>

definition to_rub :: "invoice \<Rightarrow> rat option" where
  "to_rub x =
     (if invoice_currency x \<noteq> Some RUB
      then nan_mult (number_of (invoice_amount x)) (cross_rate x)
      else number_of (invoice_amount x))"

definition with_amount_rub :: "invoice list \<Rightarrow> invoice list" where
  "with_amount_rub df = map (\<lambda>x. x\<lparr>amount_rub := to_rub x\<rparr>) df"

definition day :: int where
  "day = 86400"

text \<open>\<open>Timestamp.normalize()\<close>: midnight of the same day.\<close>

definition normalize_ts :: "int \<Rightarrow> int" where
  "normalize_ts t = t - t mod day"

text \<open>The three status strings that count as paid, and the country with a penalty.\<close>

definition paid_statuses :: "ustring list" where
  "paid_statuses = [[1086, 1087, 1083, 1072, 1095, 1077, 1085], asc ''closed'', asc ''paid'']"

definition egipet :: ustring where
  "egipet = [1077, 1075, 1080, 1087, 1077, 1090]"

text \<open>\<open>status not in [...]\<close>; a missing status is not in the list.\<close>

definition not_paid :: "invoice \<Rightarrow> bool" where
  "not_paid row = (case status row of None \<Rightarrow> True | Some s \<Rightarrow> s \<notin> set paid_statuses)"

text \<open>
  \<open>calculate_risk_score(row)\<close>. \<open>now\<close> is the clock; \<open>df_clean\<close> is the global table the
  function reads the median from (by then it has its \<open>amount_rub\<close> column, so the test
  \<open>'amount_rub' in row\<close> holds). \<open>.days\<close> of a time difference rounds down. The first
  penalty needs a time stamp: a missing date gives none, and date text does not reach
  the function, since \<open>clean_data\<close> leaves none (lemma \<open>to_datetime_parsed\<close>).
\<close>

definition calculate_risk_score :: "int \<Rightarrow> invoice list \<Rightarrow> invoice \<Rightarrow> int" where
  "calculate_risk_score now df_clean row =
     (let score0 = 0;
          today = normalize_ts now;
          score1 =
            (case invoice_date row of
               Timestamp t \<Rightarrow>
                 (let due_date = t + 30 * day;
                      days_overdue = (today - due_date) div day
                  in if days_overdue > 0 then score0 + 50 + min (days_overdue * 5) 50
                     else score0)
             | _ \<Rightarrow> score0);
          score2 =
            (if nan_gt (amount_rub row) (series_median (map amount_rub df_clean))
             then score1 + 10 else score1);
          score3 = (if not_paid row then score2 + 15 else score2);
          score4 = (if country row = Some egipet then score3 + 15 else score3)
      in min score4 100)"

definition clip :: "int \<Rightarrow> int \<Rightarrow> int \<Rightarrow> int" where
  "clip lo hi x = min hi (max lo x)"

text \<open>
  Lines 200 to 216: the conversion, the score, and the second penalty that is applied
  only when the table has a column \<open>amount\<close> (\<open>has_amount\<close>).
\<close>

definition score_table :: "bool \<Rightarrow> int \<Rightarrow> invoice list \<Rightarrow> invoice list" where
  "score_table has_amount now df =
     (let median_amount = (if has_amount then series_median (map amount df) else Some 0);
          df1 = with_amount_rub df;
          df2 = map (\<lambda>x. x\<lparr>risk_score := calculate_risk_score now df1 x\<rparr>) df1
      in if has_amount
         then map (\<lambda>x. x\<lparr>risk_score :=
                    clip 0 100 (if nan_gt (amount x) median_amount
                                then risk_score x + 10 else risk_score x)\<rparr>) df2
         else df2)"

definition pipeline ::
  "bool \<Rightarrow> (ustring \<Rightarrow> int option) \<Rightarrow> (rat \<Rightarrow> ustring) \<Rightarrow> int \<Rightarrow> invoice list \<Rightarrow> invoice list" where
  "pipeline has_amount parse_date number_text now df =
     score_table has_amount now (clean_data parse_date number_text df)"

subsection \<open>Key figures\<close>

text \<open>
  Lines 244 to 287, over the filtered view \<open>df_filtered\<close>. Every sum is taken over the
  column \<open>amount_rub\<close>, which the block computes again with the same \<open>lambda\<close>. Here
  \<open>now\<close> is \<open>datetime.now()\<close>, not rounded to midnight. A missing due date is not
  before anything; a missing status is not in the list of paid ones.
\<close>

definition due_date :: "invoice \<Rightarrow> int option" where
  "due_date r = (case invoice_date r of Timestamp t \<Rightarrow> Some (t + 30 * day) | _ \<Rightarrow> None)"

definition past_due :: "int \<Rightarrow> invoice \<Rightarrow> bool" where
  "past_due now r = (case due_date r of None \<Rightarrow> False | Some d \<Rightarrow> d < now)"

definition total_expected :: "invoice list \<Rightarrow> rat" where
  "total_expected df_filtered =
     series_sum (map amount_rub (filter not_paid (with_amount_rub df_filtered)))"

definition total_overdue :: "int \<Rightarrow> invoice list \<Rightarrow> rat" where
  "total_overdue now df_filtered =
     series_sum (map amount_rub (filter (past_due now) (with_amount_rub df_filtered)))"

definition total_amount :: "invoice list \<Rightarrow> rat" where
  "total_amount df_filtered = series_sum (map amount_rub (with_amount_rub df_filtered))"

text \<open>A division that reports a zero divisor instead of returning a number.\<close>

datatype error = DivisionByZero

definition divide_checked :: "rat \<Rightarrow> rat \<Rightarrow> error + rat" where
  "divide_checked a b = (if b = 0 then Inl DivisionByZero else Inr (a / b))"

text \<open>Lines 247 and 279 to 280: the ratio starts as 0 and is computed only under the
  guard \<open>total_amount > 0\<close>.\<close>

definition overdue_ratio :: "int \<Rightarrow> invoice list \<Rightarrow> error + rat" where
  "overdue_ratio now df_filtered =
     (if total_amount df_filtered > 0
      then (case divide_checked (total_overdue now df_filtered) (total_amount df_filtered) of
              Inl e \<Rightarrow> Inl e
            | Inr q \<Rightarrow> Inr (q * 100))
      else Inr 0)"

text \<open>
  \<open>groupby(key)['amount_rub'].sum()\<close>: one sum for every key that occurs, the keys in
  ascending order; rows with a missing key belong to no group. \<open>nlargest(n)\<close> keeps the
  \<open>n\<close> largest sums, the earlier group first among equal sums.
\<close>

definition group_keys :: "(invoice \<Rightarrow> ustring option) \<Rightarrow> invoice list \<Rightarrow> ustring list" where
  "group_keys key df = sort (remdups (dropna (map key df)))"

definition group_sum :: "(invoice \<Rightarrow> ustring option) \<Rightarrow> invoice list \<Rightarrow> ustring \<Rightarrow> rat" where
  "group_sum key df k = series_sum (map amount_rub (filter (\<lambda>r. key r = Some k) df))"

definition groupby_sum :: "(invoice \<Rightarrow> ustring option) \<Rightarrow> invoice list \<Rightarrow> (ustring \<times> rat) list" where
  "groupby_sum key df = map (\<lambda>k. (k, group_sum key df k)) (group_keys key df)"

definition nlargest :: "nat \<Rightarrow> (ustring \<times> rat) list \<Rightarrow> (ustring \<times> rat) list" where
  "nlargest n groups = take n (sort_key (\<lambda>g. - snd g) groups)"

definition top_debtors :: "int \<Rightarrow> invoice list \<Rightarrow> (ustring \<times> rat) list" where
  "top_debtors now df_filtered =
     (let overdue_df = filter (past_due now) (with_amount_rub df_filtered)
      in nlargest 5 (groupby_sum contractor overdue_df))"

subsection \<open>The check of the hypothesis\<close>

text \<open>
  The share of overdue invoices of a country divides two counts. The count of invoices
  skips rows without an invoice number, so it can be 0: a division of floating-point
  columns then gives infinity, or \<open>NaN\<close> for \<open>0 / 0\<close>.
\<close>

datatype ratio = Finite rat | Infinity | NoRatio

definition count_ratio :: "nat \<Rightarrow> nat \<Rightarrow> ratio" where
  "count_ratio k n =
     (if n = 0 then (if k = 0 then NoRatio else Infinity) else Finite (of_nat k / of_nat n))"

text \<open>Multiplication by a positive constant (the program uses 100 and 1.5).\<close>

definition scale_ratio :: "rat \<Rightarrow> ratio \<Rightarrow> ratio" where
  "scale_ratio c r = (case r of Finite x \<Rightarrow> Finite (x * c) | Infinity \<Rightarrow> Infinity | NoRatio \<Rightarrow> NoRatio)"

text \<open>\<open>round(2)\<close>: to the nearest hundredth, a tie to the even one.\<close>

definition round_half_even :: "rat \<Rightarrow> int" where
  "round_half_even x =
     (let f = \<lfloor>x\<rfloor>; d = x - of_int f in
      if d < 1 / 2 then f else if d > 1 / 2 then f + 1 else if even f then f else f + 1)"

definition round2 :: "ratio \<Rightarrow> ratio" where
  "round2 r =
     (case r of Finite x \<Rightarrow> Finite (of_int (round_half_even (x * 100)) / 100)
      | Infinity \<Rightarrow> Infinity | NoRatio \<Rightarrow> NoRatio)"

definition ratio_gt :: "ratio \<Rightarrow> ratio \<Rightarrow> bool" where
  "ratio_gt a b =
     (case a of
        Finite x \<Rightarrow> (case b of Finite y \<Rightarrow> x > y | _ \<Rightarrow> False)
      | Infinity \<Rightarrow> (case b of Finite y \<Rightarrow> True | _ \<Rightarrow> False)
      | NoRatio \<Rightarrow> False)"

definition finite_part :: "ratio list \<Rightarrow> rat list" where
  "finite_part rs = concat (map (\<lambda>r. case r of Finite x \<Rightarrow> [x] | _ \<Rightarrow> []) rs)"

text \<open>\<open>max()\<close> and \<open>median()\<close> of a column of ratios; both skip \<open>NaN\<close>.\<close>

definition ratio_max :: "ratio list \<Rightarrow> ratio" where
  "ratio_max rs =
     (if Infinity \<in> set rs then Infinity
      else case finite_part rs of [] \<Rightarrow> NoRatio | x # xs \<Rightarrow> Finite (fold max xs x))"

definition ratio_median :: "ratio list \<Rightarrow> ratio" where
  "ratio_median rs =
     (let fs = sort (finite_part rs);
          n = length fs + length (filter (\<lambda>r. r = Infinity) rs);
          pick = (\<lambda>i. if i < length fs then Finite (fs ! i) else Infinity)
      in if n = 0 then NoRatio
         else if odd n then pick (n div 2)
         else (case (pick (n div 2 - 1), pick (n div 2)) of
                 (Finite x, Finite y) \<Rightarrow> Finite ((x + y) / 2)
               | _ \<Rightarrow> Infinity))"

text \<open>\<open>idxmax()\<close>: the first label that carries the maximum; none when every ratio is \<open>NaN\<close>.\<close>

definition idxmax :: "(ustring \<times> ratio) list \<Rightarrow> ustring option" where
  "idxmax t =
     (let m = ratio_max (map snd t)
      in if m = NoRatio then None else map_option fst (find (\<lambda>g. snd g = m) t))"

definition is_overdue :: "int \<Rightarrow> invoice \<Rightarrow> bool" where
  "is_overdue now r = (past_due now r \<and> not_paid r)"

text \<open>The column \<open>overdue_ratio\<close> of \<open>country_overdue\<close> (lines 384 to 393), one row for
  every country in ascending order. The means of the amounts, which the check does not
  read, are left out.\<close>

definition country_overdue :: "int \<Rightarrow> invoice list \<Rightarrow> (ustring \<times> ratio) list" where
  "country_overdue now hypothesis_df =
     map (\<lambda>c.
            (let g = filter (\<lambda>r. country r = Some c) hypothesis_df;
                 total_invoices = length (filter (\<lambda>r. invoice_id r \<noteq> None) g);
                 overdue_invoices = length (filter (is_overdue now) g)
             in (c, round2 (scale_ratio 100 (count_ratio overdue_invoices total_invoices)))))
         (group_keys country hypothesis_df)"

datatype verdict = Confirmed | Partially_Confirmed | Not_Confirmed

text \<open>Lines 434 to 442.\<close>

definition classify :: "ratio \<Rightarrow> ratio \<Rightarrow> verdict" where
  "classify highest_risk_ratio median_ratio =
     (if ratio_gt highest_risk_ratio (scale_ratio (3 / 2) median_ratio) then Confirmed
      else if ratio_gt highest_risk_ratio median_ratio then Partially_Confirmed
      else Not_Confirmed)"

text \<open>Lines 427 to 442: nothing is said about an empty breakdown.\<close>

definition hypothesis_check :: "int \<Rightarrow> invoice list \<Rightarrow> (ustring option \<times> verdict) option" where
  "hypothesis_check now df_clean =
     (let country_overdue = country_overdue now df_clean
      in if country_overdue = [] then None
         else (let highest_risk_country = idxmax country_overdue;
                   highest_risk_ratio = ratio_max (map snd country_overdue);
                   median_ratio = ratio_median (map snd country_overdue)
               in Some (highest_risk_country, classify highest_risk_ratio median_ratio)))"

subsection \<open>The score in the words of the specification\<close>

text \<open>
  The specification gives the score as a sum of four penalties that is clamped once:
  with \<open>days_overdue = today - due_date\<close> in whole days, \<open>50 + min(days_overdue * 5, 50)\<close>
  when \<open>days_overdue > 0\<close> and 0 when there is no due date; 10 when the amount in the
  reporting currency exceeds the median of the batch; 15 when the status is outside the
  paid set; 15 when the country is the high-risk one.
\<close>

definition spec_overdue_penalty :: "int \<Rightarrow> invoice \<Rightarrow> int" where
  "spec_overdue_penalty today r =
     (case due_date r of
        None \<Rightarrow> 0
      | Some d \<Rightarrow>
          (let days_overdue = (today - d) div day
           in if days_overdue > 0 then 50 + min (days_overdue * 5) 50 else 0))"

definition spec_risk_score :: "int \<Rightarrow> rat option \<Rightarrow> invoice \<Rightarrow> int" where
  "spec_risk_score today batch_median r =
     clip 0 100
       (spec_overdue_penalty today r
        + (if nan_gt (amount_rub r) batch_median then 10 else 0)
        + (if not_paid r then 15 else 0)
        + (if country r = Some egipet then 15 else 0))"

subsection \<open>Notions for the proofs\<close>

text \<open>A row is tidy when its dates are parsed or missing and its four text columns are
  normalised. Its amounts are read back when cleaning them again, with the printing
  \<open>number_text\<close>, changes neither.\<close>

definition parsed_date :: "datecell \<Rightarrow> bool" where
  "parsed_date c = (case c of DateText s \<Rightarrow> False | _ \<Rightarrow> True)"

definition tidy :: "invoice \<Rightarrow> bool" where
  "tidy r =
     (parsed_date (invoice_date r) \<and> parsed_date (payment_date r)
      \<and> normalize_text (status r) = status r
      \<and> normalize_text (contractor r) = contractor r
      \<and> normalize_text (country r) = country r
      \<and> normalize_text (manager r) = manager r)"

definition reads_back :: "(rat \<Rightarrow> ustring) \<Rightarrow> invoice \<Rightarrow> bool" where
  "reads_back number_text r =
     (clean_amount number_text (invoice_amount r) = invoice_amount r
      \<and> clean_amount number_text (payment_amount r) = payment_amount r)"

text \<open>What \<open>score_table\<close> does to one row of the table \<open>df\<close>.\<close>

definition score_row :: "bool \<Rightarrow> int \<Rightarrow> invoice list \<Rightarrow> invoice \<Rightarrow> invoice" where
  "score_row has_amount now df x =
     (let x1 = x\<lparr>amount_rub := to_rub x\<rparr>;
          s = calculate_risk_score now (with_amount_rub df) x1
      in x1\<lparr>risk_score :=
              (if has_amount
               then clip 0 100 (if nan_gt (amount x) (series_median (map amount df))
                                then s + 10 else s)
               else s)\<rparr>)"

text \<open>A ratio that is not a negative number.\<close>

definition nonneg_ratio :: "ratio \<Rightarrow> bool" where
  "nonneg_ratio r = (case r of Finite x \<Rightarrow> 0 \<le> x | _ \<Rightarrow> True)"

subsection \<open>Example tables\<close>

text \<open>A row with every cell missing, a date parser that reads nothing, and a clock.\<close>

definition blank :: invoice where
  "blank = \<lparr>contractor = None, vessel = None, country = None, incoterms = None, bank = None,
     sales_channel = None, invoice_id = None, invoice_date = NaT, invoice_amount = NaN,
     invoice_currency = None, status = None, payment_date = NaT, payment_amount = NaN,
     cross_rate = None, manager = None, comment = None, amount = None, amount_rub = None,
     risk_score = 0\<rparr>"

definition no_dates :: "ustring \<Rightarrow> int option" where
  "no_dates s = None"

definition eval_now :: int where
  "eval_now = 1700000000"

text \<open>A printing of numbers for the examples: the digits of a whole number, with its
  sign; of another number, those of the whole number below it.\<close>

fun digits_of :: "nat \<Rightarrow> ustring" where
  "digits_of n = (if n < 10 then [48 + n] else digits_of (n div 10) @ [48 + n mod 10])"

definition whole_text :: "rat \<Rightarrow> ustring" where
  "whole_text x = (if x < 0 then 45 # digits_of (nat (- \<lfloor>x\<rfloor>)) else digits_of (nat \<lfloor>x\<rfloor>))"

text \<open>An open invoice from Egypt (written with a capital letter), issued 45 days before
  the day of the evaluation, and a small paid one in roubles.\<close>

definition egypt_row :: invoice where
  "egypt_row = blank\<lparr>invoice_id := Some (asc ''INV-1''),
      invoice_date := Timestamp (normalize_ts eval_now - 45 * day),
      invoice_amount := NumText (asc ''900''), invoice_currency := Some (asc ''USD''),
      cross_rate := Some 90, status := Some (asc '' Open''),
      country := Some [1045, 1075, 1080, 1087, 1077, 1090]\<rparr>"

definition small_row :: invoice where
  "small_row = blank\<lparr>invoice_id := Some (asc ''INV-2''),
      invoice_amount := NumText (asc ''100 $''), invoice_currency := Some (asc ''RUB''),
      status := Some (asc ''paid''), country := Some (asc ''india'')\<rparr>"

definition batch1 :: "invoice list" where
  "batch1 = [egypt_row, small_row]"

text \<open>An invoice whose currency is written \<open>rub\<close> in lower case.\<close>

definition lower_rub_row :: invoice where
  "lower_rub_row = blank\<lparr>invoice_id := Some (asc ''INV-3''),
      invoice_amount := NumText (asc ''10''), invoice_currency := Some (asc ''rub''),
      cross_rate := Some 2, status := Some (asc ''paid'')\<rparr>"

definition batch2 :: "invoice list" where
  "batch2 = [egypt_row, small_row, lower_rub_row]"

text \<open>A table of one rouble invoice without a cross rate.\<close>

definition no_rate_row :: invoice where
  "no_rate_row = blank\<lparr>invoice_id := Some (asc ''INV-4''),
      invoice_amount := NumText (asc ''100''), invoice_currency := Some (asc ''RUB''),
      status := Some (asc ''open'')\<rparr>"

text \<open>A credit note: an old invoice with a negative amount.\<close>

definition credit_row :: invoice where
  "credit_row = blank\<lparr>invoice_id := Some (asc ''INV-5''), invoice_date := Timestamp 0,
      invoice_amount := NumText (asc ''-100''), invoice_currency := Some (asc ''RUB''),
      status := Some (asc ''open'')\<rparr>"

text \<open>A dollar invoice without a cross rate and a rouble invoice whose amount is not a
  number.\<close>

definition gap_rows :: "invoice list" where
  "gap_rows =
     [blank\<lparr>invoice_id := Some (asc ''INV-6''), invoice_amount := NumText (asc ''5''),
            invoice_currency := Some (asc ''USD'')\<rparr>,
      blank\<lparr>invoice_id := Some (asc ''INV-7''), invoice_amount := NumText (asc ''n/a''),
            invoice_currency := Some (asc ''RUB'')\<rparr>]"

text \<open>Two rows without an invoice number, on different vessels.\<close>

definition unkeyed_rows :: "invoice list" where
  "unkeyed_rows = [blank\<lparr>vessel := Some (asc ''Aurora'')\<rparr>, blank\<lparr>vessel := Some (asc ''Borei'')\<rparr>]"

text \<open>Two rows with the same invoice number, then a third with another.\<close>

definition repeated_rows :: "invoice list" where
  "repeated_rows =
     [blank\<lparr>invoice_id := Some (asc ''INV-1''), vessel := Some (asc ''Aurora'')\<rparr>,
      blank\<lparr>invoice_id := Some (asc ''INV-1''), vessel := Some (asc ''Borei'')\<rparr>,
      blank\<lparr>invoice_id := Some (asc ''INV-2''), vessel := Some (asc ''Borei'')\<rparr>]"

section \<open>Properties\<close>

text \<open>The defining equations, grouped for evaluation on concrete tables.\<close>

lemmas text_eval = asc_def str_replace_def str_replace_ci_def matches_ci_def lower_cp_def
  str_lower_def str_strip_def is_space_def
lemmas number_eval = to_numeric_def parse_unsigned_def is_digit_def digits_value_def
  nan_mult_def nan_gt_def dropna_def series_sum_def median_of_def series_median_def
lemmas clean_eval = drop_duplicates_def to_datetime_def strip_amount_def amount_text_def clean_amount_def
  fillna_def astype_str_def normalize_text_def clean_dates_def clean_amounts_def
  fill_cross_rate_def clean_strings_def clean_data_def
lemmas score_eval = number_of_def RUB_def to_rub_def with_amount_rub_def day_def
  normalize_ts_def paid_statuses_def egipet_def not_paid_def calculate_risk_score_def
  clip_def score_table_def pipeline_def
lemmas example_eval = blank_def no_dates_def eval_now_def egypt_row_def small_row_def batch1_def
  lower_rub_row_def batch2_def no_rate_row_def credit_row_def gap_rows_def unkeyed_rows_def
  repeated_rows_def
lemmas kpi_eval = due_date_def past_due_def total_expected_def total_overdue_def total_amount_def
  divide_checked_def overdue_ratio_def

lemmas hypothesis_eval = count_ratio_def scale_ratio_def round_half_even_def round2_def ratio_gt_def
  finite_part_def ratio_max_def ratio_median_def idxmax_def is_overdue_def group_keys_def
  country_overdue_def classify_def hypothesis_check_def

subsection \<open>The range of the risk score\<close>

lemma calculate_risk_score_range:
  "0 \<le> calculate_risk_score now df row \<and> calculate_risk_score now df row \<le> 100"
  by (auto simp: calculate_risk_score_def Let_def split: datecell.splits)

lemma clip_range: "lo \<le> hi \<Longrightarrow> lo \<le> clip lo hi x \<and> clip lo hi x \<le> hi"
  by (simp add: clip_def)

text \<open>
  Claim C1. Every row of the cleaned and scored table has a whole-numbered
  \<open>risk_score\<close> between 0 and 100, both included, whether or not the table has the
  column \<open>amount\<close> and however large the sum of the penalties is before the clamp.
\<close>

theorem risk_score_in_range:
  "r \<in> set (pipeline has_amount parse_date number_text now df) \<Longrightarrow> 0 \<le> risk_score r \<and> risk_score r \<le> 100"
proof (cases has_amount)
  case True
  assume "r \<in> set (pipeline has_amount parse_date number_text now df)"
  with True obtain x where "risk_score r = clip 0 100 x"
    by (auto simp: pipeline_def score_table_def Let_def)
  then show ?thesis using clip_range[of 0 100 x] by simp
next
  case False
  assume "r \<in> set (pipeline has_amount parse_date number_text now df)"
  with False obtain d x where "risk_score r = calculate_risk_score now d x"
    by (auto simp: pipeline_def score_table_def Let_def)
  then show ?thesis using calculate_risk_score_range[of now d x] by simp
qed

text \<open>In the example table the first row collects penalties of 140 and scores 100.\<close>

theorem risk_score_in_range_witness:
  "pipeline False no_dates whole_text eval_now batch1 \<noteq> []
   \<and> hd (pipeline False no_dates whole_text eval_now batch1) \<in> set (pipeline False no_dates whole_text eval_now batch1)
   \<and> 0 \<le> risk_score (hd (pipeline False no_dates whole_text eval_now batch1))
   \<and> risk_score (hd (pipeline False no_dates whole_text eval_now batch1)) \<le> 100"
proof -
  have ne: "pipeline False no_dates whole_text eval_now batch1 \<noteq> []"
    by (simp add: pipeline_def score_table_def clean_data_def fill_cross_rate_def with_amount_rub_def
        drop_duplicates_def batch1_def Let_def)
  then have mem: "hd (pipeline False no_dates whole_text eval_now batch1) \<in> set (pipeline False no_dates whole_text eval_now batch1)"
    by simp
  from risk_score_in_range[OF mem] ne mem show ?thesis by simp
qed

subsection \<open>The score of the program and the score of the specification\<close>

lemma calculate_is_spec:
  "calculate_risk_score now df row
     = spec_risk_score (normalize_ts now) (series_median (map amount_rub df)) row"
proof (cases "invoice_date row")
  case (Timestamp t)
  then show ?thesis
    by (simp add: calculate_risk_score_def spec_risk_score_def spec_overdue_penalty_def
        due_date_def clip_def Let_def min.commute)
qed (simp_all add: calculate_risk_score_def spec_risk_score_def spec_overdue_penalty_def
        due_date_def clip_def Let_def)

lemma scenario_days: "(normalize_ts now - (normalize_ts now - 45 * day + 30 * day)) div day = 15"
  by (simp add: day_def)

lemma open_not_paid: "status row = Some (asc ''open'') \<Longrightarrow> not_paid row"
  by (simp add: not_paid_def paid_statuses_def asc_def)

subsection \<open>The cleaning of amounts\<close>

lemma replace_from_single: "p \<notin> set new \<Longrightarrow> p \<notin> set (replace_from p [] new s)"
  by (induction s) auto

lemma replace_from_subset: "set (replace_from p ps new s) \<subseteq> set s \<union> set new"
proof (induction p ps new s rule: replace_from.induct)
  case (1 p ps new)
  then show ?case by simp
next
  case (2 p ps new c cs)
  have "set (drop (length ps) cs) \<subseteq> set cs" by (rule set_drop_subset)
  with 2 show ?case by auto
qed

lemma replace_from_ci_subset: "set (replace_from_ci p ps new s) \<subseteq> set s \<union> set new"
proof (induction p ps new s rule: replace_from_ci.induct)
  case (1 p ps new)
  then show ?case by simp
next
  case (2 p ps new c cs)
  have "set (drop (length ps) cs) \<subseteq> set cs" by (rule set_drop_subset)
  with 2 show ?case by auto
qed

lemma str_replace_removes: "c \<notin> set new \<Longrightarrow> c \<notin> set (str_replace [c] new s)"
  by (simp add: str_replace_def replace_from_single)

lemma str_replace_keeps_out:
  "c \<notin> set s \<Longrightarrow> c \<notin> set new \<Longrightarrow> c \<notin> set (str_replace (p # ps) new s)"
  using replace_from_subset[of p ps new s] by (auto simp: str_replace_def)

lemma str_replace_ci_keeps_out:
  "c \<notin> set s \<Longrightarrow> c \<notin> set new \<Longrightarrow> c \<notin> set (str_replace_ci (p # ps) new s)"
  using replace_from_ci_subset[of p ps new s] by (auto simp: str_replace_ci_def)

lemma strip_amount_removes:
  "8776 \<notin> set (strip_amount s) \<and> 44 \<notin> set (strip_amount s) \<and> 32 \<notin> set (strip_amount s)
   \<and> 8381 \<notin> set (strip_amount s) \<and> 36 \<notin> set (strip_amount s)"
  by (simp add: strip_amount_def asc_def str_replace_removes str_replace_keeps_out
      str_replace_ci_keeps_out)

text \<open>
  Claim C7, as the program has it. The amount \<open>"\<approx> 1 200,50 usd"\<close> (U+2248 in front) is
  read as the number 1200.50; \<open>usd\<close> is removed in any case, the rouble and dollar signs
  and the space character U+0020 are removed, a comma becomes a point; text that is no
  number becomes \<open>NaN\<close> instead of an error. For every text, none of the sign U+2248,
  the comma, the space, the rouble sign and the dollar sign is left when the number is
  parsed.
\<close>

theorem amount_cleaner:
  "clean_amount number_text (NumText (8776 # asc '' 1 200,50 usd'')) = Number (2401 / 2)
   \<and> clean_amount number_text (NumText (asc ''12 UsD'' @ [8381])) = Number 12
   \<and> clean_amount number_text (NumText (asc ''$1,5'')) = Number (3 / 2)
   \<and> clean_amount number_text (NumText (asc ''n/a'')) = NaN
   \<and> 8776 \<notin> set (strip_amount s) \<and> 44 \<notin> set (strip_amount s) \<and> 32 \<notin> set (strip_amount s)
   \<and> 8381 \<notin> set (strip_amount s) \<and> 36 \<notin> set (strip_amount s)
   \<and> clean_amount number_text (NumText s)
        = (case to_numeric (strip_amount s) of None \<Rightarrow> NaN | Some x \<Rightarrow> Number x)"
proof -
  have 1: "clean_amount number_text (NumText (8776 # asc '' 1 200,50 usd'')) = Number (2401 / 2)"
    by (simp add: text_eval number_eval clean_eval)
  have 2: "clean_amount number_text (NumText (asc ''12 UsD'' @ [8381])) = Number 12"
    by (simp add: text_eval number_eval clean_eval)
  have 3: "clean_amount number_text (NumText (asc ''$1,5'')) = Number (3 / 2)"
    by (simp add: text_eval number_eval clean_eval)
  have 4: "clean_amount number_text (NumText (asc ''n/a'')) = NaN"
    by (simp add: text_eval number_eval clean_eval)
  have 5: "clean_amount number_text (NumText s)
        = (case to_numeric (strip_amount s) of None \<Rightarrow> NaN | Some x \<Rightarrow> Number x)"
    by (simp add: clean_amount_def amount_text_def)
  from 1 2 3 4 5 strip_amount_removes[of s] show ?thesis by blast
qed

text \<open>The text of the scenario, as it reaches the parser.\<close>

theorem amount_cleaner_witness:
  "clean_amount whole_text (NumText (8776 # asc '' 1 200,50 usd'')) = Number (2401 / 2)
   \<and> 32 \<notin> set (strip_amount (8776 # asc '' 1 200,50 usd''))
   \<and> strip_amount (8776 # asc '' 1 200,50 usd'') = asc ''1200.50''"
proof -
  have "strip_amount (8776 # asc '' 1 200,50 usd'') = asc ''1200.50''"
    by (simp add: text_eval clean_eval)
  with amount_cleaner[of whole_text "8776 # asc '' 1 200,50 usd''"] show ?thesis by simp
qed

text \<open>
  The claim as stated says that white space is removed. Only the space character is: a
  tab or a no-break space between the digits stays, and the amount is not read.
\<close>

theorem other_white_space_counterexample:
  "is_space 9
   \<and> strip_amount (asc ''1'' @ [9] @ asc ''200,5'') = asc ''1'' @ [9] @ asc ''200.5''
   \<and> clean_amount whole_text (NumText (asc ''1'' @ [9] @ asc ''200,5'')) = NaN
   \<and> is_space 160
   \<and> clean_amount whole_text (NumText (asc ''1'' @ [160] @ asc ''200,5'')) = NaN"
  by (simp add: text_eval number_eval clean_eval)

subsection \<open>Columns that the cleaning leaves alone\<close>

lemma clean_strings_fields [simp]:
  "invoice_id (clean_strings r) = invoice_id r"
  "invoice_date (clean_strings r) = invoice_date r"
  "payment_date (clean_strings r) = payment_date r"
  "invoice_amount (clean_strings r) = invoice_amount r"
  "payment_amount (clean_strings r) = payment_amount r"
  "invoice_currency (clean_strings r) = invoice_currency r"
  "cross_rate (clean_strings r) = cross_rate r"
  by (simp_all add: clean_strings_def)

lemma clean_amounts_fields [simp]:
  "invoice_id (clean_amounts nt r) = invoice_id r"
  "invoice_date (clean_amounts nt r) = invoice_date r"
  "payment_date (clean_amounts nt r) = payment_date r"
  "invoice_currency (clean_amounts nt r) = invoice_currency r"
  "cross_rate (clean_amounts nt r) = cross_rate r"
  by (simp_all add: clean_amounts_def)

lemma clean_dates_fields [simp]:
  "invoice_id (clean_dates p r) = invoice_id r"
  "invoice_amount (clean_dates p r) = invoice_amount r"
  "payment_amount (clean_dates p r) = payment_amount r"
  "invoice_currency (clean_dates p r) = invoice_currency r"
  "cross_rate (clean_dates p r) = cross_rate r"
  by (simp_all add: clean_dates_def)

lemma clean_amount_no_text: "clean_amount nt c \<noteq> NumText s"
  by (simp add: clean_amount_def split: option.splits)

lemma score_table_columns:
  "map invoice_currency (score_table h now df) = map invoice_currency df"
  "map invoice_amount (score_table h now df) = map invoice_amount df"
  "map payment_amount (score_table h now df) = map payment_amount df"
  "map cross_rate (score_table h now df) = map cross_rate df"
  "map invoice_id (score_table h now df) = map invoice_id df"
  by (simp_all add: score_table_def with_amount_rub_def Let_def comp_def)

lemma clean_data_columns:
  "map invoice_currency (clean_data p nt df) = map invoice_currency (drop_duplicates df)"
  "map invoice_amount (clean_data p nt df)
     = map (\<lambda>r. clean_amount nt (invoice_amount r)) (drop_duplicates df)"
  "map payment_amount (clean_data p nt df)
     = map (\<lambda>r. clean_amount nt (payment_amount r)) (drop_duplicates df)"
  "map invoice_id (clean_data p nt df) = map invoice_id (drop_duplicates df)"
  by (simp_all add: clean_data_def fill_cross_rate_def Let_def comp_def clean_amounts_def
      clean_dates_def)

subsection \<open>The cross rate after cleaning\<close>

lemma cross_rate_fill_cross_rate:
  "map cross_rate (fill_cross_rate df)
     = map (fillna (series_median (map cross_rate df))) (map cross_rate df)"
  by (simp add: fill_cross_rate_def Let_def comp_def)

lemma cross_rate_clean_data:
  "map cross_rate (clean_data parse_date number_text df)
     = map (\<lambda>r. fillna (series_median (map cross_rate (drop_duplicates df))) (cross_rate r))
         (drop_duplicates df)"
  by (simp add: clean_data_def cross_rate_fill_cross_rate comp_def)

lemma median_of_nonempty:
  assumes "xs \<noteq> []"
  shows "\<exists>m. median_of xs = Some m"
proof -
  from assms have n: "(length (sort xs) = 0) = False" by simp
  show ?thesis
    unfolding median_of_def Let_def n
    by (cases "odd (length (sort xs))") (simp_all only: if_True if_False not_False_eq_True, blast+)
qed

lemma dropna_nonempty: "v \<in> set col \<Longrightarrow> v \<noteq> None \<Longrightarrow> dropna col \<noteq> []"
  by (auto simp: dropna_def filter_empty_conv)

lemma series_median_some:
  "v \<in> set col \<Longrightarrow> v \<noteq> None \<Longrightarrow> \<exists>m. series_median col = Some m"
  unfolding series_median_def by (rule median_of_nonempty) (rule dropna_nonempty)

lemma fillna_some: "\<exists>x. fillna (Some y) c = Some x"
  by (cases c) (simp_all add: fillna_def)

text \<open>
  Claim C2, as the program has it. After \<open>clean_data\<close> the cross rate of a row is its own
  rate, or, where that was missing, the median of the rates that are present in the
  rows that survive the removal of duplicates. When at least one surviving row has a
  rate, no cross rate is missing afterwards. (When none has, the median is itself
  missing and every cross rate stays missing.)
\<close>

theorem cross_rate_after_cleaning:
  "map cross_rate (clean_data parse_date number_text df)
     = map (\<lambda>r. fillna (series_median (map cross_rate (drop_duplicates df))) (cross_rate r))
         (drop_duplicates df)
   \<and> ((\<exists>r \<in> set (drop_duplicates df). cross_rate r \<noteq> None)
        \<longrightarrow> (\<forall>r \<in> set (clean_data parse_date number_text df). cross_rate r \<noteq> None))"
proof (intro conjI impI)
  show "map cross_rate (clean_data parse_date number_text df)
     = map (\<lambda>r. fillna (series_median (map cross_rate (drop_duplicates df))) (cross_rate r))
         (drop_duplicates df)"
    by (rule cross_rate_clean_data)
next
  assume "\<exists>r \<in> set (drop_duplicates df). cross_rate r \<noteq> None"
  then obtain r0 where "r0 \<in> set (drop_duplicates df)" "cross_rate r0 \<noteq> None" by blast
  then have "\<exists>m. series_median (map cross_rate (drop_duplicates df)) = Some m"
    by (intro series_median_some[of "cross_rate r0"]) auto
  then have "\<forall>c \<in> set (map cross_rate (clean_data parse_date number_text df)). c \<noteq> None"
    unfolding cross_rate_clean_data by (auto simp: fillna_some)
  then show "\<forall>r \<in> set (clean_data parse_date number_text df). cross_rate r \<noteq> None"
    by auto
qed

text \<open>In the example table one of two rates is missing and is filled with the other.\<close>

theorem cross_rate_after_cleaning_witness:
  "(\<exists>r \<in> set (drop_duplicates batch1). cross_rate r \<noteq> None)
   \<and> \<not> (\<exists>r \<in> set (clean_data no_dates whole_text batch1). cross_rate r = None)
   \<and> map cross_rate (clean_data no_dates whole_text batch1) = [Some 90, Some 90]"
proof -
  have h: "\<exists>r \<in> set (drop_duplicates batch1). cross_rate r \<noteq> None"
    by (simp add: text_eval clean_eval example_eval)
  from cross_rate_after_cleaning[of no_dates whole_text batch1] h
  have a: "\<forall>r \<in> set (clean_data no_dates whole_text batch1). cross_rate r \<noteq> None"
    and v: "map cross_rate (clean_data no_dates whole_text batch1)
      = map (\<lambda>r. fillna (series_median (map cross_rate (drop_duplicates batch1))) (cross_rate r))
          (drop_duplicates batch1)"
    by blast+
  have "map (\<lambda>r. fillna (series_median (map cross_rate (drop_duplicates batch1))) (cross_rate r))
          (drop_duplicates batch1) = [Some 90, Some 90]"
    by (simp add: text_eval number_eval clean_eval example_eval)
  with h a v show ?thesis by auto
qed

text \<open>
  The claim as stated says that no cross rate is missing after cleaning even when every
  rate of the input is missing. A table of one row without a rate refutes it.
\<close>

theorem cross_rate_all_null_counterexample:
  "map cross_rate [no_rate_row] = [None]
   \<and> map cross_rate (clean_data no_dates whole_text [no_rate_row]) = [None]"
  by (simp add: text_eval number_eval clean_eval example_eval)

subsection \<open>The conversion\<close>

lemma pipeline_row:
  assumes "r \<in> set (pipeline has_amount parse_date number_text now df)"
  shows "\<exists>x s. x \<in> set (clean_data parse_date number_text df) \<and> r = x\<lparr>amount_rub := to_rub x, risk_score := s\<rparr>"
proof (cases has_amount)
  case True
  with assms show ?thesis
    by (auto simp: pipeline_def score_table_def with_amount_rub_def Let_def)
next
  case False
  with assms show ?thesis
    by (auto simp: pipeline_def score_table_def with_amount_rub_def Let_def)
qed

lemma to_rub_update [simp]: "to_rub (x\<lparr>amount_rub := a, risk_score := s\<rparr>) = to_rub x"
  "to_rub (x\<lparr>amount_rub := a\<rparr>) = to_rub x" "to_rub (x\<lparr>risk_score := s\<rparr>) = to_rub x"
  by (simp_all add: to_rub_def)

lemma pipeline_amount_rub:
  "r \<in> set (pipeline has_amount parse_date number_text now df) \<Longrightarrow> amount_rub r = to_rub r"
  by (drule pipeline_row) auto

text \<open>
  Claim C5. In every row of the scored table, \<open>amount_rub\<close> is the invoice amount itself
  when the currency is exactly \<open>RUB\<close> (the comparison distinguishes case), and the
  invoice amount times the cross rate otherwise.
\<close>

theorem conversion_rule:
  "r \<in> set (pipeline has_amount parse_date number_text now df) \<Longrightarrow>
     (invoice_currency r = Some (asc ''RUB'') \<longrightarrow> amount_rub r = number_of (invoice_amount r))
   \<and> (invoice_currency r \<noteq> Some (asc ''RUB'')
        \<longrightarrow> amount_rub r = nan_mult (number_of (invoice_amount r)) (cross_rate r))"
  by (drule pipeline_amount_rub) (simp add: to_rub_def RUB_def)

text \<open>A dollar invoice, a rouble invoice and one whose currency is written \<open>rub\<close>.\<close>

theorem conversion_rule_witness:
  "map invoice_currency (pipeline False no_dates whole_text eval_now batch2)
        = [Some (asc ''USD''), Some (asc ''RUB''), Some (asc ''rub'')]
   \<and> map invoice_amount (pipeline False no_dates whole_text eval_now batch2) = [Number 900, Number 100, Number 10]
   \<and> map cross_rate (pipeline False no_dates whole_text eval_now batch2) = [Some 90, Some 46, Some 2]
   \<and> amount_rub (pipeline False no_dates whole_text eval_now batch2 ! 0) = Some 81000
   \<and> amount_rub (pipeline False no_dates whole_text eval_now batch2 ! 1) = Some 100
   \<and> amount_rub (pipeline False no_dates whole_text eval_now batch2 ! 2) = Some 20"
proof -
  let ?P = "pipeline False no_dates whole_text eval_now batch2"
  have 1: "map invoice_currency ?P = [Some (asc ''USD''), Some (asc ''RUB''), Some (asc ''rub'')]"
    unfolding pipeline_def score_table_columns clean_data_columns
    by (simp add: text_eval clean_eval example_eval)
  have 2: "map invoice_amount ?P = [Number 900, Number 100, Number 10]"
    unfolding pipeline_def score_table_columns clean_data_columns
    by (simp add: text_eval number_eval clean_eval example_eval)
  have 3: "map cross_rate ?P = [Some 90, Some 46, Some 2]"
    unfolding pipeline_def score_table_columns cross_rate_clean_data
    by (simp add: text_eval number_eval clean_eval example_eval)
  have len: "length ?P = 3"
    using arg_cong[OF 1, of length] by simp
  have field: "f (?P ! i) = map f ?P ! i" if "i < 3" for i and f :: "invoice \<Rightarrow> 'b"
    using that len by simp
  have mem: "?P ! i \<in> set ?P" if "i < 3" for i
    using that len by simp
  have a0: "amount_rub (?P ! 0) = Some 81000"
    using conversion_rule[OF mem[of 0]] field[of 0 invoice_currency] field[of 0 invoice_amount]
      field[of 0 cross_rate]
    unfolding 1 2 3 by (simp add: asc_def number_of_def nan_mult_def)
  have a1: "amount_rub (?P ! 1) = Some 100"
    using conversion_rule[OF mem[of 1]] field[of 1 invoice_currency] field[of 1 invoice_amount]
      field[of 1 cross_rate]
    unfolding 1 2 3 by (simp add: asc_def number_of_def nan_mult_def)
  have a2: "amount_rub (?P ! 2) = Some 20"
    using conversion_rule[OF mem[of 2]] field[of 2 invoice_currency] field[of 2 invoice_amount]
      field[of 2 cross_rate]
    unfolding 1 2 3 by (simp add: asc_def number_of_def nan_mult_def)
  from 1 2 3 a0 a1 a2 show ?thesis by blast
qed

subsection \<open>Sums over the converted amounts\<close>

lemma amount_rub_with_amount_rub: "map amount_rub (with_amount_rub df) = map to_rub df"
  by (simp add: with_amount_rub_def comp_def)

lemma not_paid_update [simp]: "not_paid (x\<lparr>amount_rub := a\<rparr>) = not_paid x"
  by (simp add: not_paid_def)

lemma past_due_update [simp]: "past_due now (x\<lparr>amount_rub := a\<rparr>) = past_due now x"
  by (simp add: past_due_def due_date_def)

lemma filter_with_amount_rub:
  assumes "\<And>x. P (x\<lparr>amount_rub := to_rub x\<rparr>) = P x"
  shows "filter P (with_amount_rub df) = with_amount_rub (filter P df)"
proof -
  have "P \<circ> (\<lambda>x. x\<lparr>amount_rub := to_rub x\<rparr>) = P"
    by (rule ext) (simp only: comp_apply assms)
  then show ?thesis
    by (simp only: with_amount_rub_def filter_map)
qed

lemma filter_not_paid: "filter not_paid (with_amount_rub df) = with_amount_rub (filter not_paid df)"
  by (rule filter_with_amount_rub) simp

lemma filter_past_due:
  "filter (past_due now) (with_amount_rub df) = with_amount_rub (filter (past_due now) df)"
  by (rule filter_with_amount_rub) simp

lemma filter_contractor:
  "filter (\<lambda>r. contractor r = Some k) (with_amount_rub df)
     = with_amount_rub (filter (\<lambda>r. contractor r = Some k) df)"
  by (rule filter_with_amount_rub) simp

lemma series_sum_Cons:
  "series_sum (v # col) = (case v of None \<Rightarrow> series_sum col | Some x \<Rightarrow> x + series_sum col)"
  by (cases v) (simp_all add: series_sum_def dropna_def)

lemma series_sum_skips:
  "series_sum (map to_rub (filter P (filter (\<lambda>r. to_rub r \<noteq> None) df)))
     = series_sum (map to_rub (filter P df))"
  by (induction df) (auto simp: series_sum_Cons)

lemma total_amount_eq: "total_amount df = series_sum (map to_rub df)"
  by (simp add: total_amount_def amount_rub_with_amount_rub)

lemma total_expected_eq: "total_expected df = series_sum (map to_rub (filter not_paid df))"
  by (simp add: total_expected_def filter_not_paid amount_rub_with_amount_rub)

lemma total_overdue_eq: "total_overdue now df = series_sum (map to_rub (filter (past_due now) df))"
  by (simp add: total_overdue_def filter_past_due amount_rub_with_amount_rub)

lemma contractor_update [simp]: "contractor (x\<lparr>amount_rub := a\<rparr>) = contractor x"
  by simp

lemma group_sum_overdue_eq:
  "group_sum contractor (filter (past_due now) (with_amount_rub df)) k
     = series_sum (map to_rub (filter (\<lambda>r. contractor r = Some k) (filter (past_due now) df)))"
  by (simp add: group_sum_def filter_past_due filter_contractor amount_rub_with_amount_rub)

lemma filter_swap: "filter P (filter Q xs) = filter Q (filter P xs)"
  by (induction xs) simp_all

text \<open>
  Claim C6, as the program has it. In every row of the scored table the converted amount
  is missing when the invoice amount is missing, and when the currency is not \<open>RUB\<close> and
  the cross rate is missing. The sums of expected revenue, overdue amount, total amount
  and the overdue sum of a contractor skip missing amounts: each is the same over the
  view and over the view without the rows whose converted amount is missing.
\<close>

theorem null_amounts_skipped:
  "(r \<in> set (pipeline has_amount parse_date number_text now df) \<longrightarrow>
      (invoice_amount r = NaN \<longrightarrow> amount_rub r = None)
    \<and> (invoice_currency r \<noteq> Some (asc ''RUB'') \<and> cross_rate r = None \<longrightarrow> amount_rub r = None))
   \<and> total_amount (filter (\<lambda>r. to_rub r \<noteq> None) view) = total_amount view
   \<and> total_expected (filter (\<lambda>r. to_rub r \<noteq> None) view) = total_expected view
   \<and> total_overdue clock (filter (\<lambda>r. to_rub r \<noteq> None) view) = total_overdue clock view
   \<and> group_sum contractor (filter (past_due clock) (with_amount_rub (filter (\<lambda>r. to_rub r \<noteq> None) view))) k
       = group_sum contractor (filter (past_due clock) (with_amount_rub view)) k"
proof (intro conjI impI)
  assume r: "r \<in> set (pipeline has_amount parse_date number_text now df)"
  { assume "invoice_amount r = NaN"
    with pipeline_amount_rub[OF r] show "amount_rub r = None"
      by (simp add: to_rub_def number_of_def nan_mult_def) }
  { assume "invoice_currency r \<noteq> Some (asc ''RUB'') \<and> cross_rate r = None"
    with pipeline_amount_rub[OF r] show "amount_rub r = None"
      by (simp add: to_rub_def RUB_def nan_mult_def split: option.splits) }
next
  show "total_amount (filter (\<lambda>r. to_rub r \<noteq> None) view) = total_amount view"
    using series_sum_skips[of "\<lambda>r. True" view] by (simp add: total_amount_eq)
next
  show "total_expected (filter (\<lambda>r. to_rub r \<noteq> None) view) = total_expected view"
    using series_sum_skips[of not_paid view] by (simp add: total_expected_eq)
next
  show "total_overdue clock (filter (\<lambda>r. to_rub r \<noteq> None) view) = total_overdue clock view"
    using series_sum_skips[of "past_due clock" view] by (simp add: total_overdue_eq)
next
  show "group_sum contractor (filter (past_due clock) (with_amount_rub (filter (\<lambda>r. to_rub r \<noteq> None) view))) k
       = group_sum contractor (filter (past_due clock) (with_amount_rub view)) k"
    using series_sum_skips[of "\<lambda>r. past_due clock r \<and> contractor r = Some k" view]
    by (simp add: group_sum_overdue_eq)
qed

text \<open>A dollar invoice without a rate and a rouble invoice without a readable amount.\<close>

theorem null_amounts_skipped_witness:
  "hd (pipeline False no_dates whole_text eval_now gap_rows) \<in> set (pipeline False no_dates whole_text eval_now gap_rows)
   \<and> invoice_currency (hd (pipeline False no_dates whole_text eval_now gap_rows)) \<noteq> Some (asc ''RUB'')
   \<and> cross_rate (hd (pipeline False no_dates whole_text eval_now gap_rows)) = None
   \<and> amount_rub (hd (pipeline False no_dates whole_text eval_now gap_rows)) = None
   \<and> last (pipeline False no_dates whole_text eval_now gap_rows) \<in> set (pipeline False no_dates whole_text eval_now gap_rows)
   \<and> invoice_amount (last (pipeline False no_dates whole_text eval_now gap_rows)) = NaN
   \<and> amount_rub (last (pipeline False no_dates whole_text eval_now gap_rows)) = None
   \<and> total_amount (pipeline False no_dates whole_text eval_now gap_rows) = total_amount []"
proof -
  have ne: "pipeline False no_dates whole_text eval_now gap_rows \<noteq> []"
    by (simp add: pipeline_def score_table_def clean_data_def fill_cross_rate_def with_amount_rub_def
        drop_duplicates_def gap_rows_def Let_def)
  have h: "invoice_currency (hd (pipeline False no_dates whole_text eval_now gap_rows)) \<noteq> Some (asc ''RUB'')
      \<and> cross_rate (hd (pipeline False no_dates whole_text eval_now gap_rows)) = None"
    by (simp add: text_eval number_eval clean_eval score_eval example_eval Let_def)
  have l: "invoice_amount (last (pipeline False no_dates whole_text eval_now gap_rows)) = NaN"
    by (simp add: text_eval number_eval clean_eval score_eval example_eval Let_def)
  have f: "filter (\<lambda>r. to_rub r \<noteq> None) (pipeline False no_dates whole_text eval_now gap_rows) = []"
    by (simp add: text_eval number_eval clean_eval score_eval example_eval Let_def)
  from ne have mh: "hd (pipeline False no_dates whole_text eval_now gap_rows) \<in> set (pipeline False no_dates whole_text eval_now gap_rows)"
    and ml: "last (pipeline False no_dates whole_text eval_now gap_rows) \<in> set (pipeline False no_dates whole_text eval_now gap_rows)"
    by simp_all
  from null_amounts_skipped[of "hd (pipeline False no_dates whole_text eval_now gap_rows)" False no_dates whole_text eval_now gap_rows
      "pipeline False no_dates whole_text eval_now gap_rows"] mh h
  have 1: "amount_rub (hd (pipeline False no_dates whole_text eval_now gap_rows)) = None
     \<and> total_amount (filter (\<lambda>r. to_rub r \<noteq> None) (pipeline False no_dates whole_text eval_now gap_rows))
        = total_amount (pipeline False no_dates whole_text eval_now gap_rows)" by blast
  from null_amounts_skipped[of "last (pipeline False no_dates whole_text eval_now gap_rows)" False no_dates whole_text eval_now gap_rows] ml l
  have 2: "amount_rub (last (pipeline False no_dates whole_text eval_now gap_rows)) = None" by blast
  from 1 2 mh ml h l f show ?thesis by simp
qed

text \<open>
  The claim as stated says that a missing cross rate always makes the converted amount
  missing. A rouble invoice without a cross rate keeps its amount.
\<close>

theorem null_cross_rate_counterexample:
  "map cross_rate (pipeline False no_dates whole_text eval_now [no_rate_row]) = [None]
   \<and> map amount_rub (pipeline False no_dates whole_text eval_now [no_rate_row]) = [Some 100]
   \<and> total_amount (pipeline False no_dates whole_text eval_now [no_rate_row]) = 100"
  by (simp add: text_eval number_eval clean_eval score_eval kpi_eval example_eval Let_def)

subsection \<open>The overdue ratio\<close>

lemma series_sum_nonneg:
  "(\<And>x. Some x \<in> set col \<Longrightarrow> 0 \<le> x) \<Longrightarrow> 0 \<le> series_sum col"
proof (induction col)
  case Nil
  then show ?case by (simp add: series_sum_def dropna_def)
next
  case (Cons v col)
  then have "0 \<le> series_sum col" by simp
  with Cons.prems show ?case by (cases v) (simp_all add: series_sum_Cons)
qed

text \<open>
  Claim C8, as the program has it. The overdue ratio is
  \<open>total_overdue / total_amount * 100\<close> when the total amount is positive and 0 when it
  is zero or negative; so it is the quotient for every total other than zero when no
  converted amount is negative. The division is never reached with a zero divisor.
\<close>

theorem overdue_ratio_guarded:
  "(0 < total_amount view
      \<longrightarrow> overdue_ratio now view = Inr (total_overdue now view / total_amount view * 100))
   \<and> (total_amount view \<le> 0 \<longrightarrow> overdue_ratio now view = Inr 0)
   \<and> ((\<forall>r \<in> set view. \<forall>x. to_rub r = Some x \<longrightarrow> 0 \<le> x) \<and> total_amount view \<noteq> 0
      \<longrightarrow> overdue_ratio now view = Inr (total_overdue now view / total_amount view * 100))
   \<and> overdue_ratio now view \<noteq> Inl DivisionByZero"
proof (intro conjI impI)
  show pos: "overdue_ratio now view = Inr (total_overdue now view / total_amount view * 100)"
    if "0 < total_amount view"
    using that by (simp add: overdue_ratio_def divide_checked_def)
  show zero: "overdue_ratio now view = Inr 0" if "total_amount view \<le> 0"
    using that by (simp add: overdue_ratio_def)
  show "overdue_ratio now view = Inr (total_overdue now view / total_amount view * 100)"
    if h: "(\<forall>r \<in> set view. \<forall>x. to_rub r = Some x \<longrightarrow> 0 \<le> x) \<and> total_amount view \<noteq> 0"
  proof -
    have "0 \<le> series_sum (map to_rub view)"
      using h by (intro series_sum_nonneg) auto
    with h have "0 < total_amount view" by (simp add: total_amount_eq)
    then show ?thesis by (rule pos)
  qed
  show "overdue_ratio now view \<noteq> Inl DivisionByZero"
    using pos zero by (cases "0 < total_amount view") simp_all
qed

text \<open>The example table, where 81000 of 81100 roubles are overdue, and the empty view.\<close>

theorem overdue_ratio_guarded_witness:
  "0 < total_amount (pipeline False no_dates whole_text eval_now batch1)
   \<and> \<not> (\<exists>r \<in> set (pipeline False no_dates whole_text eval_now batch1). \<exists>x. to_rub r = Some x \<and> x < 0)
   \<and> overdue_ratio eval_now (pipeline False no_dates whole_text eval_now batch1) = Inr (81000 / 811)
   \<and> total_amount [] \<le> 0
   \<and> overdue_ratio eval_now [] = Inr 0"
proof -
  have t: "total_amount (pipeline False no_dates whole_text eval_now batch1) = 81100"
    by (simp add: text_eval number_eval clean_eval score_eval kpi_eval example_eval Let_def)
  have o: "total_overdue eval_now (pipeline False no_dates whole_text eval_now batch1) = 81000"
    by (simp add: text_eval number_eval clean_eval score_eval kpi_eval example_eval Let_def)
  have n: "\<not> (\<exists>r \<in> set (pipeline False no_dates whole_text eval_now batch1). \<exists>x. to_rub r = Some x \<and> x < 0)"
    by (simp add: text_eval number_eval clean_eval score_eval kpi_eval example_eval Let_def)
  have e: "total_amount [] \<le> 0"
    by (simp add: total_amount_def with_amount_rub_def series_sum_def dropna_def)
  from overdue_ratio_guarded[of "pipeline False no_dates whole_text eval_now batch1" eval_now] t o
  have 1: "overdue_ratio eval_now (pipeline False no_dates whole_text eval_now batch1) = Inr (81000 / 811)"
    by simp
  from overdue_ratio_guarded[of "[]" eval_now] e
  have 2: "overdue_ratio eval_now [] = Inr 0" by blast
  from 1 2 t n e show ?thesis by simp
qed

text \<open>
  The claim as stated gives the quotient for every total other than zero. For a single
  credit note the total is -100, the quotient would be 100, and the program reports 0.
\<close>

theorem negative_total_counterexample:
  "total_amount (pipeline False no_dates whole_text eval_now [credit_row]) = - 100
   \<and> total_overdue eval_now (pipeline False no_dates whole_text eval_now [credit_row]) = - 100
   \<and> overdue_ratio eval_now (pipeline False no_dates whole_text eval_now [credit_row]) = Inr 0
   \<and> total_overdue eval_now (pipeline False no_dates whole_text eval_now [credit_row])
        / total_amount (pipeline False no_dates whole_text eval_now [credit_row]) * 100 = 100"
  by (simp add: text_eval number_eval clean_eval score_eval kpi_eval example_eval Let_def)

subsection \<open>The removal of duplicates\<close>

lemma drop_seen_keys: "invoice_id ` set (drop_seen seen df) = invoice_id ` set df - set seen"
  by (induction df arbitrary: seen) auto

lemma drop_seen_distinct: "distinct (map invoice_id (drop_seen seen df))"
proof (induction df arbitrary: seen)
  case Nil
  then show ?case by simp
next
  case (Cons r df)
  have "invoice_id r \<notin> invoice_id ` set (drop_seen (invoice_id r # seen) df)"
    by (simp add: drop_seen_keys)
  with Cons show ?case by simp
qed

lemma drop_seen_find_seen:
  "k \<in> set seen \<Longrightarrow> find (\<lambda>r. invoice_id r = k) (drop_seen seen df) = None"
  using drop_seen_keys[of seen df] by (auto simp: find_None_iff)

lemma drop_seen_find:
  "k \<notin> set seen \<Longrightarrow>
     find (\<lambda>r. invoice_id r = k) (drop_seen seen df) = find (\<lambda>r. invoice_id r = k) df"
proof (induction df arbitrary: seen)
  case Nil
  then show ?case by simp
next
  case (Cons r df)
  then show ?case by (cases "invoice_id r = k") auto
qed

lemma filter_upt_Suc:
  "filter P [0..<Suc n] = (if P 0 then [0] else []) @ map Suc (filter (\<lambda>i. P (Suc i)) [0..<n])"
proof -
  have "[0..<Suc n] = 0 # map Suc [0..<n]"
    by (simp add: upt_conv_Cons map_Suc_upt del: upt_Suc)
  then show ?thesis
    by (simp add: filter_map comp_def del: upt_Suc)
qed

lemma drop_seen_indices:
  "drop_seen seen df
     = map (nth df)
         (filter (\<lambda>i. invoice_id (df ! i) \<notin> set seen \<union> invoice_id ` set (take i df))
            [0..<length df])"
proof (induction df arbitrary: seen)
  case Nil
  then show ?case by simp
next
  case (Cons r df)
  show ?case
  proof (cases "invoice_id r \<in> set seen")
    case True
    then have "(x \<notin> set seen \<and> x \<noteq> invoice_id r \<and> Q) = (x \<notin> set seen \<and> Q)" for x Q
      by auto
    with True Cons[of seen] show ?thesis
      by (simp add: filter_upt_Suc comp_def del: upt_Suc)
  next
    case False
    have "(x \<noteq> invoice_id r \<and> x \<notin> set seen \<and> Q) = (x \<notin> set seen \<and> x \<noteq> invoice_id r \<and> Q)" for x Q
      by auto
    with False Cons[of "invoice_id r # seen"] show ?thesis
      by (simp add: filter_upt_Suc comp_def del: upt_Suc)
  qed
qed

lemma drop_duplicates_first:
  "find (\<lambda>r. invoice_id r = k) (drop_duplicates df) = find (\<lambda>r. invoice_id r = k) df"
  by (simp add: drop_duplicates_def drop_seen_find)

lemma drop_duplicates_distinct: "distinct (map invoice_id (drop_duplicates df))"
  by (simp add: drop_duplicates_def drop_seen_distinct)

lemma distinct_map_filter_le1:
  "distinct (map f xs) \<Longrightarrow> length (filter (\<lambda>x. f x = k) xs) \<le> 1"
proof (induction xs)
  case Nil
  then show ?case by simp
next
  case (Cons x xs)
  show ?case
  proof (cases "f x = k")
    case True
    with Cons.prems have "k \<notin> f ` set xs"
      by simp
    then have "\<forall>y \<in> set xs. f y \<noteq> k"
      by blast
    then have "filter (\<lambda>x. f x = k) xs = []"
      by (simp add: filter_empty_conv)
    with True show ?thesis by simp
  next
    case False
    with Cons show ?thesis by simp
  qed
qed


text \<open>
  Claim C4, as the program has it. The removal of duplicates keeps exactly the rows whose
  invoice number does not occur in an earlier row, in their original order; so for every
  invoice number, the missing one included, the row that survives is the first with that
  number. Two missing numbers count as equal: the cleaned table has no invoice number
  twice and at most one row without a number.
\<close>

theorem first_occurrence_kept:
  "drop_duplicates df
     = map (nth df)
         (filter (\<lambda>i. invoice_id (df ! i) \<notin> invoice_id ` set (take i df)) [0..<length df])
   \<and> find (\<lambda>r. invoice_id r = k) (drop_duplicates df) = find (\<lambda>r. invoice_id r = k) df
   \<and> map invoice_id (clean_data parse_date number_text df) = map invoice_id (drop_duplicates df)
   \<and> distinct (map invoice_id (clean_data parse_date number_text df))
   \<and> length (filter (\<lambda>r. invoice_id r = None) (clean_data parse_date number_text df)) \<le> 1"
proof (intro conjI)
  show "drop_duplicates df
     = map (nth df)
         (filter (\<lambda>i. invoice_id (df ! i) \<notin> invoice_id ` set (take i df)) [0..<length df])"
    using drop_seen_indices[of "[]" df] by (simp add: drop_duplicates_def)
  show "find (\<lambda>r. invoice_id r = k) (drop_duplicates df) = find (\<lambda>r. invoice_id r = k) df"
    by (rule drop_duplicates_first)
  show ids: "map invoice_id (clean_data parse_date number_text df) = map invoice_id (drop_duplicates df)"
    by (rule clean_data_columns)
  show d: "distinct (map invoice_id (clean_data parse_date number_text df))"
    unfolding ids by (rule drop_duplicates_distinct)
  show "length (filter (\<lambda>r. invoice_id r = None) (clean_data parse_date number_text df)) \<le> 1"
    using d by (rule distinct_map_filter_le1)
qed

text \<open>Of two rows with the number \<open>INV-1\<close> the first survives, with its vessel.\<close>

theorem first_occurrence_kept_witness:
  "map invoice_id repeated_rows = [Some (asc ''INV-1''), Some (asc ''INV-1''), Some (asc ''INV-2'')]
   \<and> drop_duplicates repeated_rows = [repeated_rows ! 0, repeated_rows ! 2]
   \<and> map vessel (clean_data no_dates whole_text repeated_rows) = [Some (asc ''Aurora''), Some (asc ''Borei'')]
   \<and> map invoice_id (clean_data no_dates whole_text repeated_rows) = [Some (asc ''INV-1''), Some (asc ''INV-2'')]"
proof -
  have i: "map invoice_id repeated_rows = [Some (asc ''INV-1''), Some (asc ''INV-1''), Some (asc ''INV-2'')]"
    by (simp add: repeated_rows_def blank_def)
  have f: "filter (\<lambda>i. invoice_id (repeated_rows ! i) \<notin> invoice_id ` set (take i repeated_rows))
             [0..<length repeated_rows] = [0, 2]"
    by (simp add: repeated_rows_def blank_def asc_def upt_rec[of 0] upt_rec[of 1] upt_rec[of 2]
        take_Suc_conv_app_nth numeral_2_eq_2)
  from first_occurrence_kept[of repeated_rows _ no_dates whole_text]
  have d: "drop_duplicates repeated_rows = [repeated_rows ! 0, repeated_rows ! 2]"
    and m: "map invoice_id (clean_data no_dates whole_text repeated_rows) = map invoice_id (drop_duplicates repeated_rows)"
    unfolding f by simp_all
  have v: "map vessel (clean_data no_dates whole_text repeated_rows) = map vessel (drop_duplicates repeated_rows)"
    by (simp add: clean_data_def fill_cross_rate_def Let_def comp_def clean_strings_def
        clean_amounts_def clean_dates_def)
  from i d m v show ?thesis
    by (simp add: repeated_rows_def blank_def)
qed

text \<open>
  The claim as stated says that all rows without an invoice number survive. Of two
  such rows only the first is left.
\<close>

theorem unkeyed_rows_counterexample:
  "map invoice_id unkeyed_rows = [None, None]
   \<and> map vessel unkeyed_rows = [Some (asc ''Aurora''), Some (asc ''Borei'')]
   \<and> map vessel (clean_data no_dates whole_text unkeyed_rows) = [Some (asc ''Aurora'')]"
  by (simp add: text_eval number_eval clean_eval example_eval)

subsection \<open>The verdict on the hypothesis\<close>

lemma round_half_even_nonneg: "0 \<le> x \<Longrightarrow> 0 \<le> round_half_even x"
  by (simp add: round_half_even_def Let_def)

lemma nonneg_count_ratio: "nonneg_ratio (round2 (scale_ratio 100 (count_ratio k n)))"
  by (simp add: nonneg_ratio_def round2_def scale_ratio_def count_ratio_def round_half_even_nonneg)

lemma nonneg_country_overdue: "g \<in> set (country_overdue now df) \<Longrightarrow> nonneg_ratio (snd g)"
  by (auto simp: country_overdue_def Let_def nonneg_count_ratio)

lemma finite_part_set: "x \<in> set (finite_part rs) \<longleftrightarrow> Finite x \<in> set rs"
  by (induction rs) (auto simp: finite_part_def split: ratio.splits)

lemma fold_max_in: "fold max xs (x::rat) \<in> set (x # xs)"
  by (induction xs arbitrary: x) (auto simp: max_def)

lemma fold_max_ge: "y \<in> set (x # xs) \<Longrightarrow> y \<le> fold max xs (x::rat)"
proof (induction xs arbitrary: x y)
  case Nil
  then show ?case by simp
next
  case (Cons a xs)
  have top: "max a x \<le> fold max xs (max a x)"
    by (rule Cons.IH) simp
  show ?case
  proof (cases "y \<in> set xs")
    case True
    then show ?thesis using Cons.IH[of y "max a x"] by simp
  next
    case False
    with Cons.prems have "y \<le> max a x" by auto
    from this top have "y \<le> fold max xs (max a x)" by (rule order_trans)
    then show ?thesis by simp
  qed
qed

lemma ratio_max_in: "ratio_max rs = NoRatio \<or> ratio_max rs \<in> set rs"
proof (cases "Infinity \<in> set rs")
  case True
  then show ?thesis by (simp add: ratio_max_def)
next
  case False
  show ?thesis
  proof (cases "finite_part rs")
    case Nil
    with False show ?thesis by (simp add: ratio_max_def)
  next
    case (Cons x xs)
    have "fold max xs x \<in> set (finite_part rs)"
      using fold_max_in[of xs x] Cons by simp
    then have "Finite (fold max xs x) \<in> set rs" by (simp add: finite_part_set)
    with False Cons show ?thesis by (simp add: ratio_max_def)
  qed
qed

lemma ratio_max_upper: "r \<in> set rs \<Longrightarrow> \<not> ratio_gt r (ratio_max rs)"
proof (cases "Infinity \<in> set rs")
  case True
  then show ?thesis by (simp add: ratio_max_def ratio_gt_def split: ratio.splits)
next
  case False
  assume r: "r \<in> set rs"
  show ?thesis
  proof (cases r)
    case (Finite y)
    with r have y: "y \<in> set (finite_part rs)" by (simp add: finite_part_set)
    then obtain x xs where c: "finite_part rs = x # xs" by (cases "finite_part rs") auto
    with y have "y \<le> fold max xs x" using fold_max_ge[of y x xs] by simp
    with False c Finite show ?thesis by (simp add: ratio_max_def ratio_gt_def)
  next
    case Infinity
    with r False show ?thesis by simp
  next
    case NoRatio
    then show ?thesis by (simp add: ratio_gt_def)
  qed
qed

lemma ratio_median_nonneg:
  assumes "\<And>r. r \<in> set rs \<Longrightarrow> nonneg_ratio r"
  shows "nonneg_ratio (ratio_median rs)"
proof -
  have fs: "0 \<le> sort (finite_part rs) ! i" if "i < length (sort (finite_part rs))" for i
  proof -
    from that have "sort (finite_part rs) ! i \<in> set (sort (finite_part rs))"
      by (rule nth_mem)
    then have "Finite (sort (finite_part rs) ! i) \<in> set rs"
      by (simp add: finite_part_set)
    from assms[OF this] show ?thesis by (simp add: nonneg_ratio_def)
  qed
  show ?thesis
    unfolding ratio_median_def Let_def
    by (auto simp: nonneg_ratio_def fs split: ratio.splits if_splits)
qed

lemma ratio_gt_irrefl: "\<not> ratio_gt r r"
  by (simp add: ratio_gt_def split: ratio.splits)

lemma ratio_gt_scaled:
  "nonneg_ratio m \<Longrightarrow> ratio_gt h (scale_ratio (3 / 2) m) \<Longrightarrow> ratio_gt h m"
  by (auto simp: nonneg_ratio_def ratio_gt_def scale_ratio_def split: ratio.splits)

lemma classify_cases:
  "(classify h m = Confirmed \<longleftrightarrow> ratio_gt h (scale_ratio (3 / 2) m))
   \<and> (classify h m = Partially_Confirmed
        \<longleftrightarrow> ratio_gt h m \<and> \<not> ratio_gt h (scale_ratio (3 / 2) m))
   \<and> (classify h m = Not_Confirmed
        \<longleftrightarrow> \<not> ratio_gt h m \<and> \<not> ratio_gt h (scale_ratio (3 / 2) m))"
  by (simp add: classify_def)

lemma find_SomeD: "find P xs = Some x \<Longrightarrow> x \<in> set xs \<and> P x"
  by (induction xs) (auto split: if_splits)

lemma idxmax_in:
  assumes "idxmax t = Some k"
  shows "(k, ratio_max (map snd t)) \<in> set t"
proof -
  from assms obtain g where g: "find (\<lambda>g. snd g = ratio_max (map snd t)) t = Some g" and k: "fst g = k"
    by (auto simp: idxmax_def Let_def split: if_splits)
  from find_SomeD[OF g] k show ?thesis by (cases g) auto
qed


text \<open>
  Claim C9. The check reports the first country that carries the maximum overdue ratio
  (no ratio of the breakdown exceeds it) and calls the hypothesis confirmed exactly when
  that ratio is greater than 1.5 times the median of the ratios, partially confirmed
  exactly when it is greater than the median but not greater than 1.5 times the median,
  and not confirmed exactly when it is not greater than the median. A maximum equal to
  the median is not confirmed.
\<close>

theorem hypothesis_rule:
  fixes now :: int and df :: "invoice list"
  defines "T \<equiv> country_overdue now df"
  defines "h \<equiv> ratio_max (map snd T)" and "m \<equiv> ratio_median (map snd T)"
  shows "hypothesis_check now df = (if T = [] then None else Some (idxmax T, classify h m))
   \<and> (\<forall>k. idxmax T = Some k \<longrightarrow> (k, h) \<in> set T)
   \<and> (\<forall>g \<in> set T. \<not> ratio_gt (snd g) h)
   \<and> (classify h m = Confirmed \<longleftrightarrow> ratio_gt h (scale_ratio (3 / 2) m))
   \<and> (classify h m = Partially_Confirmed
        \<longleftrightarrow> ratio_gt h m \<and> \<not> ratio_gt h (scale_ratio (3 / 2) m))
   \<and> (classify h m = Not_Confirmed \<longleftrightarrow> \<not> ratio_gt h m)
   \<and> (h = m \<longrightarrow> classify h m = Not_Confirmed)"
proof -
  have nn: "nonneg_ratio m"
    unfolding m_def T_def
    by (rule ratio_median_nonneg) (auto dest: nonneg_country_overdue)
  have not: "classify h m = Not_Confirmed \<longleftrightarrow> \<not> ratio_gt h m"
    using classify_cases[of h m] ratio_gt_scaled[OF nn, of h] by blast
  have 1: "hypothesis_check now df = (if T = [] then None else Some (idxmax T, classify h m))"
    by (simp add: hypothesis_check_def Let_def T_def h_def m_def)
  have 2: "\<forall>k. idxmax T = Some k \<longrightarrow> (k, h) \<in> set T"
    unfolding h_def by (auto dest: idxmax_in)
  have 3: "\<forall>g \<in> set T. \<not> ratio_gt (snd g) h"
    unfolding h_def using ratio_max_upper[of _ "map snd T"] by force
  have 4: "h = m \<longrightarrow> classify h m = Not_Confirmed"
    using not ratio_gt_irrefl[of h] by auto
  from 1 2 3 4 not classify_cases[of h m] show ?thesis by blast
qed

text \<open>Three countries with ratios 0, 0 and 100: confirmed. One country alone, whose ratio
  is the maximum and the median: not confirmed.\<close>

theorem hypothesis_rule_witness:
  "country_overdue eval_now (clean_data no_dates whole_text batch2)
     = [(asc ''india'', Finite 0), (asc ''nan'', Finite 0), (egipet, Finite 100)]
   \<and> hypothesis_check eval_now (clean_data no_dates whole_text batch2) = Some (Some egipet, Confirmed)
   \<and> country_overdue eval_now (clean_data no_dates whole_text [egypt_row]) = [(egipet, Finite 100)]
   \<and> ratio_max [Finite 100] = ratio_median [Finite 100]
   \<and> hypothesis_check eval_now (clean_data no_dates whole_text [egypt_row]) = Some (Some egipet, Not_Confirmed)"
proof -
  have t2: "country_overdue eval_now (clean_data no_dates whole_text batch2)
     = [(asc ''india'', Finite 0), (asc ''nan'', Finite 0), (egipet, Finite 100)]"
    by (simp add: text_eval number_eval clean_eval score_eval kpi_eval hypothesis_eval example_eval Let_def)
  have t1: "country_overdue eval_now (clean_data no_dates whole_text [egypt_row]) = [(egipet, Finite 100)]"
    by (simp add: text_eval number_eval clean_eval score_eval kpi_eval hypothesis_eval example_eval Let_def)
  have e: "ratio_max [Finite 100] = ratio_median [Finite 100]"
    by (simp add: ratio_max_def ratio_median_def finite_part_def)
  have c2: "classify (ratio_max (map snd [(asc ''india'', Finite 0), (asc ''nan'', Finite 0), (egipet, Finite 100)]))
      (ratio_median (map snd [(asc ''india'', Finite 0), (asc ''nan'', Finite 0), (egipet, Finite 100)])) = Confirmed"
    by (simp add: hypothesis_eval Let_def)
  have i2: "idxmax [(asc ''india'', Finite 0), (asc ''nan'', Finite 0), (egipet, Finite 100)] = Some egipet"
    by (simp add: hypothesis_eval asc_def egipet_def Let_def)
  have i1: "idxmax [(egipet, Finite 100)] = Some egipet"
    by (simp add: hypothesis_eval Let_def)
  from hypothesis_rule[of eval_now "clean_data no_dates whole_text batch2"]
  have r2: "hypothesis_check eval_now (clean_data no_dates whole_text batch2) = Some (Some egipet, Confirmed)"
    unfolding t2 using c2 i2 by simp
  note one = hypothesis_rule[of eval_now "clean_data no_dates whole_text [egypt_row]", unfolded t1 list.map snd_conv]
  from one e have cls: "classify (ratio_max [Finite 100]) (ratio_median [Finite 100]) = Not_Confirmed"
    by blast
  from one have "hypothesis_check eval_now (clean_data no_dates whole_text [egypt_row])
      = (if [(egipet, Finite 100)] = [] then None
         else Some (idxmax [(egipet, Finite 100)],
                    classify (ratio_max [Finite 100]) (ratio_median [Finite 100])))"
    by blast
  then have r1: "hypothesis_check eval_now (clean_data no_dates whole_text [egypt_row]) = Some (Some egipet, Not_Confirmed)"
    by (simp only: cls i1 list.distinct if_False)
  from t2 r2 t1 e r1 show ?thesis by blast
qed

subsection \<open>Normalised text stays as it is\<close>

lemma lower_cp_idem: "lower_cp (lower_cp c) = lower_cp c"
  by (simp add: lower_cp_def)

lemma is_space_lower_cp: "is_space (lower_cp c) = is_space c"
  by (auto simp: lower_cp_def is_space_def)

lemma str_lower_idem: "str_lower (str_lower s) = str_lower s"
  by (simp add: str_lower_def lower_cp_idem)

lemma str_strip_lower: "str_strip (str_lower s) = str_lower (str_strip s)"
proof -
  have c: "is_space \<circ> lower_cp = is_space"
    by (rule ext) (simp add: is_space_lower_cp)
  show ?thesis
    by (simp add: str_strip_def str_lower_def dropWhile_map rev_map c)
qed

lemma dropWhile_rev_trimmed:
  assumes "u = [] \<or> \<not> P (hd u)"
  shows "dropWhile P (rev (dropWhile P (rev u))) = rev (dropWhile P (rev u))"
proof (cases "dropWhile P (rev u) = []")
  case True
  then show ?thesis by (simp only: rev.simps dropWhile.simps)
next
  case False
  have "rev u = takeWhile P (rev u) @ dropWhile P (rev u)" by simp
  then have "u = rev (dropWhile P (rev u)) @ rev (takeWhile P (rev u))"
    by (metis rev_append rev_rev_ident)
  with False have "hd u = hd (rev (dropWhile P (rev u)))"
    by (metis hd_append2 rev_is_Nil_conv)
  moreover from False have "u \<noteq> []" by auto
  ultimately have "\<not> P (hd (rev (dropWhile P (rev u))))"
    using assms by simp
  then show ?thesis by (simp add: dropWhile_eq_self_iff)
qed

lemma dropWhile_head: "dropWhile P s = [] \<or> \<not> P (hd (dropWhile P s))"
  by (metis hd_dropWhile)

lemma str_strip_idem: "str_strip (str_strip s) = str_strip s"
proof -
  have 1: "dropWhile is_space (rev (dropWhile is_space (rev (dropWhile is_space s))))
        = rev (dropWhile is_space (rev (dropWhile is_space s)))"
    by (rule dropWhile_rev_trimmed) (rule dropWhile_head)
  show ?thesis
    unfolding str_strip_def 1 by simp
qed

lemma normalize_text_idem: "normalize_text (normalize_text c) = normalize_text c"
  by (simp add: normalize_text_def astype_str_def str_strip_lower str_strip_idem str_lower_idem)

lemma to_datetime_idem: "to_datetime p2 (to_datetime p1 c) = to_datetime p1 c"
  by (cases c) (auto simp: to_datetime_def split: option.splits)

subsection \<open>Cleaning a cleaned table\<close>

lemma to_datetime_parsed: "parsed_date (to_datetime p c)"
  by (cases c) (auto simp: to_datetime_def parsed_date_def split: option.splits)

lemma to_datetime_fix: "parsed_date c \<Longrightarrow> to_datetime p c = c"
  by (cases c) (simp_all add: to_datetime_def parsed_date_def)

lemma clean_dates_fix: "tidy r \<Longrightarrow> clean_dates p r = r"
  by (simp add: tidy_def clean_dates_def to_datetime_fix)

lemma clean_amounts_fix: "reads_back nt r \<Longrightarrow> clean_amounts nt r = r"
  by (simp add: reads_back_def clean_amounts_def)

lemma clean_strings_fix: "tidy r \<Longrightarrow> clean_strings r = r"
  by (simp add: tidy_def clean_strings_def)

lemma tidy_cleaned:
  "tidy (clean_strings ((clean_amounts nt (clean_dates p r))\<lparr>cross_rate := v\<rparr>))"
  by (simp add: tidy_def clean_strings_def clean_amounts_def clean_dates_def
      to_datetime_parsed normalize_text_idem)

lemma tidy_clean_data: "r \<in> set (clean_data p nt df) \<Longrightarrow> tidy r"
  by (auto simp: clean_data_def fill_cross_rate_def Let_def tidy_cleaned)

lemma tidy_score_row: "tidy (score_row h now df x) = tidy x"
  by (simp add: score_row_def tidy_def Let_def)

lemma drop_seen_distinct_fix:
  "distinct (map invoice_id xs) \<Longrightarrow> set seen \<inter> invoice_id ` set xs = {} \<Longrightarrow> drop_seen seen xs = xs"
proof (induction xs arbitrary: seen)
  case Nil
  then show ?case by simp
next
  case (Cons r xs)
  from Cons.prems have "invoice_id r \<notin> set seen" by auto
  moreover from Cons.prems have "set (invoice_id r # seen) \<inter> invoice_id ` set xs = {}"
    by auto
  moreover from Cons.prems have "distinct (map invoice_id xs)" by simp
  ultimately show ?case using Cons.IH[of "invoice_id r # seen"] by simp
qed

lemma drop_duplicates_fix: "distinct (map invoice_id xs) \<Longrightarrow> drop_duplicates xs = xs"
  by (simp add: drop_duplicates_def drop_seen_distinct_fix)

lemma fillna_None: "fillna None c = c"
  by (cases c) (simp_all add: fillna_def)

lemma fillna_median_fix:
  "fillna (series_median (map (\<lambda>x. fillna (series_median (map f df)) (f x)) df))
       (fillna (series_median (map f df)) c)
     = fillna (series_median (map f df)) c"
proof (cases "series_median (map f df)")
  case None
  then show ?thesis by (simp add: fillna_None)
next
  case (Some v)
  then show ?thesis by (cases c) (simp_all add: fillna_def)
qed

lemma fill_cross_rate_idem: "fill_cross_rate (fill_cross_rate df) = fill_cross_rate df"
  by (simp add: fill_cross_rate_def Let_def comp_def fillna_median_fix)

lemma fill_cross_rate_fix:
  assumes "map (fillna (series_median (map cross_rate T))) (map cross_rate T) = map cross_rate T"
  shows "fill_cross_rate T = T"
proof -
  have "r\<lparr>cross_rate := fillna (series_median (map cross_rate T)) (cross_rate r)\<rparr> = r"
    if "r \<in> set T" for r
  proof -
    from assms that have "fillna (series_median (map cross_rate T)) (cross_rate r) = cross_rate r"
      by (simp add: map_eq_conv)
    then show ?thesis by simp
  qed
  then show ?thesis
    by (simp add: fill_cross_rate_def Let_def map_idI)
qed

lemma filled_column_fix:
  "map (fillna (series_median (map (fillna (series_median col)) col))) (map (fillna (series_median col)) col)
     = map (fillna (series_median col)) col"
  using fillna_median_fix[of "\<lambda>x. x" col] by simp

lemma clean_data_fix:
  assumes ids: "distinct (map invoice_id T)"
    and rows: "\<And>r. r \<in> set T \<Longrightarrow> tidy r"
    and amounts: "\<And>r. r \<in> set T \<Longrightarrow> reads_back nt r"
    and rates: "map (fillna (series_median (map cross_rate T))) (map cross_rate T) = map cross_rate T"
  shows "clean_data p nt T = T"
proof -
  have 1: "drop_duplicates T = T" using ids by (rule drop_duplicates_fix)
  have 2: "map (clean_dates p) T = T" by (intro map_idI clean_dates_fix rows)
  have 3: "map (clean_amounts nt) T = T" by (intro map_idI clean_amounts_fix amounts)
  have 4: "fill_cross_rate T = T" using rates by (rule fill_cross_rate_fix)
  have 5: "map clean_strings T = T" by (intro map_idI clean_strings_fix rows)
  show ?thesis
    unfolding clean_data_def 1 2 3 4 5 ..
qed

subsection \<open>Scoring a scored table\<close>

lemma score_table_rows: "score_table h now df = map (score_row h now df) df"
  by (cases h) (simp_all add: score_table_def score_row_def with_amount_rub_def Let_def comp_def)

lemma score_row_fields [simp]:
  "to_rub (score_row h now df x) = to_rub x"
  "amount (score_row h now df x) = amount x"
  "amount_rub (score_row h now df x) = to_rub x"
  "invoice_id (score_row h now df x) = invoice_id x"
  "cross_rate (score_row h now df x) = cross_rate x"
  by (simp_all add: score_row_def Let_def to_rub_def)

lemma calculate_risk_score_cong:
  "map amount_rub d = map amount_rub d' \<Longrightarrow>
     calculate_risk_score now d x = calculate_risk_score now d' x"
  by (simp add: calculate_risk_score_def)

lemma calculate_risk_score_reads:
  "calculate_risk_score now d (x\<lparr>amount_rub := a, risk_score := s\<rparr>)
     = calculate_risk_score now d (x\<lparr>amount_rub := a\<rparr>)"
  by (simp add: calculate_risk_score_def not_paid_def)

lemma score_row_idem:
  "score_row h now (map (score_row h now df) df) (score_row h now df x) = score_row h now df x"
proof -
  have a: "map amount_rub (with_amount_rub (map (score_row h now df) df))
         = map amount_rub (with_amount_rub df)"
    by (simp add: with_amount_rub_def comp_def)
  have b: "map amount (map (score_row h now df) df) = map amount df"
    by (simp add: comp_def)
  have c: "(score_row h now df x)\<lparr>amount_rub := to_rub (score_row h now df x)\<rparr> = score_row h now df x"
    by (simp add: score_row_def Let_def to_rub_def)
  have d: "calculate_risk_score now (with_amount_rub (map (score_row h now df) df)) (score_row h now df x)
         = calculate_risk_score now (with_amount_rub df) (x\<lparr>amount_rub := to_rub x\<rparr>)"
    unfolding calculate_risk_score_cong[OF a]
    by (simp add: score_row_def Let_def calculate_risk_score_reads)
  have e: "score_row h now (map (score_row h now df) df) (score_row h now df x)
      = (score_row h now df x)\<lparr>risk_score :=
           (if h then clip 0 100
                (if nan_gt (amount x) (series_median (map amount df))
                 then calculate_risk_score now (with_amount_rub df) (x\<lparr>amount_rub := to_rub x\<rparr>) + 10
                 else calculate_risk_score now (with_amount_rub df) (x\<lparr>amount_rub := to_rub x\<rparr>))
            else calculate_risk_score now (with_amount_rub df) (x\<lparr>amount_rub := to_rub x\<rparr>))\<rparr>"
    unfolding score_row_def[of h now "map (score_row h now df) df"] Let_def c d b
    by simp
  show ?thesis
    unfolding e by (simp add: score_row_def Let_def)
qed

lemma score_table_idem: "score_table h now (score_table h now df) = score_table h now df"
  by (simp add: score_table_rows score_row_idem)

subsection \<open>Running the pipeline again\<close>

text \<open>
  What a second run does to the table of a first run. The number of rows, the invoice
  numbers and the cross rates never change. The other columns depend on the amounts,
  and an amount that is a number is printed and parsed again: when every amount of the
  table is read back as it is, the second run returns the table of the first.
\<close>

lemma pipeline_distinct: "distinct (map invoice_id (pipeline h p nt now df))"
  unfolding pipeline_def score_table_columns clean_data_columns
  by (rule drop_duplicates_distinct)

lemma pipeline_tidy:
  assumes "r \<in> set (pipeline h p nt now df)"
  shows "tidy r"
proof -
  from assms obtain x where "x \<in> set (clean_data p nt df)" "r = score_row h now (clean_data p nt df) x"
    by (auto simp: pipeline_def score_table_rows)
  then show ?thesis
    by (simp add: tidy_score_row tidy_clean_data)
qed

lemma pipeline_rates:
  "map (fillna (series_median (map cross_rate (pipeline h p nt now df))))
       (map cross_rate (pipeline h p nt now df)) = map cross_rate (pipeline h p nt now df)"
proof -
  have "map cross_rate (pipeline h p nt now df)
      = map (fillna (series_median (map cross_rate (drop_duplicates df))))
          (map cross_rate (drop_duplicates df))"
    unfolding pipeline_def score_table_columns cross_rate_clean_data by simp
  then show ?thesis
    by (simp only: filled_column_fix)
qed

lemma pipeline_again_rows:
  "map invoice_id (pipeline h p2 nt2 now (pipeline h p1 nt1 now df))
     = map invoice_id (pipeline h p1 nt1 now df)
   \<and> map cross_rate (pipeline h p2 nt2 now (pipeline h p1 nt1 now df))
     = map cross_rate (pipeline h p1 nt1 now df)
   \<and> length (pipeline h p2 nt2 now (pipeline h p1 nt1 now df))
     = length (pipeline h p1 nt1 now df)"
proof -
  let ?T = "pipeline h p1 nt1 now df"
  have d: "drop_duplicates ?T = ?T"
    by (rule drop_duplicates_fix) (rule pipeline_distinct)
  have i: "map invoice_id (pipeline h p2 nt2 now ?T) = map invoice_id ?T"
    unfolding pipeline_def[of h p2] score_table_columns clean_data_columns d ..
  have "map cross_rate (pipeline h p2 nt2 now ?T)
      = map (fillna (series_median (map cross_rate ?T))) (map cross_rate ?T)"
    unfolding pipeline_def[of h p2] score_table_columns cross_rate_clean_data d by simp
  then have c: "map cross_rate (pipeline h p2 nt2 now ?T) = map cross_rate ?T"
    by (simp only: pipeline_rates)
  from i have "length (map invoice_id (pipeline h p2 nt2 now ?T)) = length (map invoice_id ?T)"
    by (rule arg_cong)
  then have "length (pipeline h p2 nt2 now ?T) = length ?T"
    by (simp only: length_map)
  with i c show ?thesis by blast
qed

lemma pipeline_again:
  assumes "\<And>r. r \<in> set (pipeline h p1 nt1 now df) \<Longrightarrow> reads_back nt2 r"
  shows "pipeline h p2 nt2 now (pipeline h p1 nt1 now df) = pipeline h p1 nt1 now df"
proof -
  have "clean_data p2 nt2 (pipeline h p1 nt1 now df) = pipeline h p1 nt1 now df"
    by (rule clean_data_fix) (rule pipeline_distinct pipeline_tidy assms pipeline_rates, assumption?)+
  then have "pipeline h p2 nt2 now (pipeline h p1 nt1 now df) = score_table h now (pipeline h p1 nt1 now df)"
    unfolding pipeline_def[of h p2] by simp
  also have "\<dots> = pipeline h p1 nt1 now df"
    unfolding pipeline_def by (rule score_table_idem)
  finally show ?thesis .
qed

text \<open>In the example table the amounts are the whole numbers 900 and 100, which the
  example printing gives back to the parser digit by digit.\<close>

lemma pipeline_again_example:
  "map invoice_amount (pipeline False no_dates whole_text eval_now batch1) = [Number 900, Number 100]
   \<and> clean_amount whole_text (Number 900) = Number 900
   \<and> clean_amount whole_text (Number 100) = Number 100
   \<and> pipeline False no_dates whole_text eval_now (pipeline False no_dates whole_text eval_now batch1)
     = pipeline False no_dates whole_text eval_now batch1"
proof -
  let ?T = "pipeline False no_dates whole_text eval_now batch1"
  have a: "map invoice_amount ?T = [Number 900, Number 100]"
    unfolding pipeline_def score_table_columns clean_data_columns
    by (simp add: text_eval number_eval clean_eval example_eval)
  have b: "map payment_amount ?T = [NaN, NaN]"
    unfolding pipeline_def score_table_columns clean_data_columns
    by (simp add: text_eval number_eval clean_eval example_eval)
  have n: "clean_amount whole_text NaN = NaN"
    by (simp add: text_eval number_eval clean_eval)
  have 9: "clean_amount whole_text (Number 900) = Number 900"
    by (simp add: text_eval number_eval clean_eval whole_text_def)
  have 1: "clean_amount whole_text (Number 100) = Number 100"
    by (simp add: text_eval number_eval clean_eval whole_text_def)
  have "reads_back whole_text r" if "r \<in> set ?T" for r
  proof -
    from that have "invoice_amount r \<in> set (map invoice_amount ?T)"
      and "payment_amount r \<in> set (map payment_amount ?T)"
      by simp_all
    then show ?thesis
      unfolding a b using n 9 1 by (auto simp: reads_back_def)
  qed
  then have "pipeline False no_dates whole_text eval_now ?T = ?T"
    by (rule pipeline_again)
  with a 9 1 show ?thesis by blast
qed

subsection \<open>The formula of the risk score\<close>

lemma spec_risk_score_reads:
  "spec_risk_score today m (x\<lparr>risk_score := s\<rparr>) = spec_risk_score today m x"
  by (simp add: spec_risk_score_def spec_overdue_penalty_def due_date_def not_paid_def)

lemma pipeline_risk_score:
  assumes "r \<in> set (pipeline False p nt now df)"
  shows "risk_score r
     = spec_risk_score (normalize_ts now)
         (series_median (map amount_rub (pipeline False p nt now df))) r"
proof -
  let ?C = "clean_data p nt df"
  from assms obtain x where r: "r = score_row False now ?C x"
    by (auto simp: pipeline_def score_table_rows)
  have col: "map amount_rub (pipeline False p nt now df) = map amount_rub (with_amount_rub ?C)"
    by (simp add: pipeline_def score_table_rows with_amount_rub_def comp_def)
  have "risk_score r = calculate_risk_score now (with_amount_rub ?C) (x\<lparr>amount_rub := to_rub x\<rparr>)"
    by (simp add: r score_row_def Let_def)
  also have "\<dots> = spec_risk_score (normalize_ts now)
      (series_median (map amount_rub (with_amount_rub ?C))) (x\<lparr>amount_rub := to_rub x\<rparr>)"
    by (rule calculate_is_spec)
  also have "\<dots> = spec_risk_score (normalize_ts now)
      (series_median (map amount_rub (with_amount_rub ?C))) r"
    by (simp add: r score_row_def Let_def spec_risk_score_reads)
  finally show ?thesis by (simp only: col)
qed

text \<open>
  Claim C3. \<open>calculate_risk_score\<close> is the sum of the four penalties of the
  specification, clamped once at the end; a row dated 45 days before the day of the
  evaluation, with status \<open>open\<close>, an amount above the median of the batch and the
  high-risk country scores exactly 100; and in the scored table of an export (which has
  no column \<open>amount\<close>) the \<open>risk_score\<close> of every row is that clamped sum, with the
  median taken over the converted amounts of the table.
\<close>

theorem risk_score_formula:
  "calculate_risk_score now df row
     = spec_risk_score (normalize_ts now) (series_median (map amount_rub df)) row
   \<and> (invoice_date row = Timestamp (normalize_ts now - 45 * day)
        \<and> status row = Some (asc ''open'')
        \<and> nan_gt (amount_rub row) (series_median (map amount_rub df))
        \<and> country row = Some egipet
      \<longrightarrow> calculate_risk_score now df row = 100)
   \<and> (r \<in> set (pipeline False parse_date number_text now table)
      \<longrightarrow> risk_score r
          = spec_risk_score (normalize_ts now)
              (series_median (map amount_rub (pipeline False parse_date number_text now table))) r)"
proof (intro conjI impI)
  show "calculate_risk_score now df row
     = spec_risk_score (normalize_ts now) (series_median (map amount_rub df)) row"
    by (rule calculate_is_spec)
next
  assume a: "invoice_date row = Timestamp (normalize_ts now - 45 * day)
        \<and> status row = Some (asc ''open'')
        \<and> nan_gt (amount_rub row) (series_median (map amount_rub df))
        \<and> country row = Some egipet"
  then have "not_paid row" by (simp add: open_not_paid)
  with a show "calculate_risk_score now df row = 100"
    by (simp add: calculate_risk_score_def Let_def day_def)
next
  assume "r \<in> set (pipeline False parse_date number_text now table)"
  then show "risk_score r
          = spec_risk_score (normalize_ts now)
              (series_median (map amount_rub (pipeline False parse_date number_text now table))) r"
    by (rule pipeline_risk_score)
qed

text \<open>The first row of the cleaned example table is such a row.\<close>

theorem risk_score_formula_witness:
  "invoice_date (hd (with_amount_rub (clean_data no_dates whole_text batch1))) = Timestamp (normalize_ts eval_now - 45 * day)
   \<and> status (hd (with_amount_rub (clean_data no_dates whole_text batch1))) = Some (asc ''open'')
   \<and> nan_gt (amount_rub (hd (with_amount_rub (clean_data no_dates whole_text batch1))))
        (series_median (map amount_rub (with_amount_rub (clean_data no_dates whole_text batch1))))
   \<and> country (hd (with_amount_rub (clean_data no_dates whole_text batch1))) = Some egipet
   \<and> calculate_risk_score eval_now (with_amount_rub (clean_data no_dates whole_text batch1))
        (hd (with_amount_rub (clean_data no_dates whole_text batch1))) = 100
   \<and> hd (pipeline False no_dates whole_text eval_now batch1) \<in> set (pipeline False no_dates whole_text eval_now batch1)
   \<and> risk_score (hd (pipeline False no_dates whole_text eval_now batch1))
        = spec_risk_score (normalize_ts eval_now)
            (series_median (map amount_rub (pipeline False no_dates whole_text eval_now batch1)))
            (hd (pipeline False no_dates whole_text eval_now batch1))"
proof -
  have h: "invoice_date (hd (with_amount_rub (clean_data no_dates whole_text batch1))) = Timestamp (normalize_ts eval_now - 45 * day)
   \<and> status (hd (with_amount_rub (clean_data no_dates whole_text batch1))) = Some (asc ''open'')
   \<and> nan_gt (amount_rub (hd (with_amount_rub (clean_data no_dates whole_text batch1))))
        (series_median (map amount_rub (with_amount_rub (clean_data no_dates whole_text batch1))))
   \<and> country (hd (with_amount_rub (clean_data no_dates whole_text batch1))) = Some egipet"
    by (simp add: text_eval number_eval clean_eval score_eval example_eval Let_def)
  have "pipeline False no_dates whole_text eval_now batch1 \<noteq> []"
    by (simp add: pipeline_def score_table_def clean_data_def fill_cross_rate_def with_amount_rub_def
        drop_duplicates_def batch1_def Let_def)
  then have m: "hd (pipeline False no_dates whole_text eval_now batch1) \<in> set (pipeline False no_dates whole_text eval_now batch1)"
    by simp
  from h m risk_score_formula[of eval_now "with_amount_rub (clean_data no_dates whole_text batch1)"
      "hd (with_amount_rub (clean_data no_dates whole_text batch1))"
      "hd (pipeline False no_dates whole_text eval_now batch1)" no_dates whole_text batch1]
  show ?thesis by blast
qed

end
